theory Spec2Isabelle
  imports Complex_Main "HOL-Library.Monad_Syntax" "HOL-Library.Multiset" "HOL-Library.Sublist"
begin

section \<open>Data model (src/types.ts)\<close>

text \<open>
  JavaScript numbers are modelled as \<open>real\<close>: every layout quantity of the renderer
  (coordinates, widths, the line height) is a number that the code only adds, multiplies
  and compares. Strings are \<open>string\<close>; arrays are lists.
\<close>

record HighlightedToken =
  tokenText :: string
  color :: string

record HighlightedLine =
  tokens :: "HighlightedToken list"

record HighlightedFile =
  path :: string
  language :: string
  lines :: "HighlightedLine list"

record FormattedRepoData =
  title :: string
  tableOfContents :: "string list"
  files :: "HighlightedFile list"

datatype fontName = Courier | Helvetica | Times

datatype themeName = light | dark

record PdfOptions =
  font :: fontName
  fontSize :: real
  lineSpacing :: real
  theme :: themeName

section \<open>The jsPDF document object\<close>

text \<open>
  \<open>generateRepoPdf\<close> drives a jsPDF document through its methods. The document is
  modelled by what the methods store: the pages closed so far, the operations drawn on
  the current page, and the current fill colour, text colour and font. A text operation
  records the argument of \<open>doc.text\<close> (one string, or the array of lines returned by
  \<open>splitTextToSize\<close>), the anchor coordinates it was given, and the colour and font in
  force at the call.
\<close>

datatype fontStyle = normal | bold

type_synonym fontState = "fontName \<times> fontStyle \<times> real"

datatype textArg = Str string | Lines "string list"

datatype drawOp =
    Rect real real real real string string
  | TextOp textArg real real string fontState

record jsPDF =
  closedPages :: "drawOp list list"
  currentPage :: "drawOp list"
  fillColor :: string
  textColor :: string
  docFont :: fontState

type_synonym blob = string

text \<open>
  What jsPDF itself computes is not part of the repository and is taken as a parameter:
  the page size, the text metrics (\<open>getTextWidth\<close>, \<open>splitTextToSize\<close>, both depending
  on the current font), the colour strings that \<open>setTextColor\<close> and \<open>setFillColor\<close>
  accept (on any other string the call throws), and the serializer behind
  \<open>doc.output('blob')\<close>.
\<close>

record jsEnv =
  pageWidth :: real
  pageHeight :: real
  getTextWidth :: "fontState \<Rightarrow> string \<Rightarrow> real"
  splitTextToSize :: "fontState \<Rightarrow> string \<Rightarrow> real \<Rightarrow> string list"
  acceptsColor :: "string \<Rightarrow> bool"
  docOutput :: "jsPDF \<Rightarrow> blob"

text \<open>\<open>new jsPDF()\<close>: one empty page, black fill and text, Helvetica 16.\<close>

definition newJsPDF :: jsPDF where
  "newJsPDF = \<lparr>closedPages = [], currentPage = [], fillColor = ''#000000'',
     textColor = ''#000000'', docFont = (Helvetica, normal, 16)\<rparr>"

definition draw :: "drawOp \<Rightarrow> jsPDF \<Rightarrow> jsPDF" where
  "draw op d = d\<lparr>currentPage := currentPage d @ [op]\<rparr>"

definition setFillColor :: "jsEnv \<Rightarrow> string \<Rightarrow> jsPDF \<Rightarrow> jsPDF option" where
  "setFillColor env c d = (if acceptsColor env c then Some (d\<lparr>fillColor := c\<rparr>) else None)"

definition setTextColor :: "jsEnv \<Rightarrow> string \<Rightarrow> jsPDF \<Rightarrow> jsPDF option" where
  "setTextColor env c d = (if acceptsColor env c then Some (d\<lparr>textColor := c\<rparr>) else None)"

definition rect :: "real \<Rightarrow> real \<Rightarrow> real \<Rightarrow> real \<Rightarrow> string \<Rightarrow> jsPDF \<Rightarrow> jsPDF" where
  "rect x y w h style d = draw (Rect x y w h style (fillColor d)) d"

definition addPage :: "jsPDF \<Rightarrow> jsPDF" where
  "addPage d = d\<lparr>closedPages := closedPages d @ [currentPage d], currentPage := []\<rparr>"

definition setFont :: "fontName \<Rightarrow> fontStyle \<Rightarrow> jsPDF \<Rightarrow> jsPDF" where
  "setFont n s d = d\<lparr>docFont := (n, s, snd (snd (docFont d)))\<rparr>"

definition setFontSize :: "real \<Rightarrow> jsPDF \<Rightarrow> jsPDF" where
  "setFontSize z d = d\<lparr>docFont := (fst (docFont d), fst (snd (docFont d)), z)\<rparr>"

definition docText :: "textArg \<Rightarrow> real \<Rightarrow> real \<Rightarrow> jsPDF \<Rightarrow> jsPDF" where
  "docText t x y d = draw (TextOp t x y (textColor d) (docFont d)) d"

text \<open>All operations of the document, page after page, in drawing order.\<close>

definition allOps :: "jsPDF \<Rightarrow> drawOp list" where
  "allOps d = concat (closedPages d) @ currentPage d"

section \<open>The renderer (src/services/pdf.ts)\<close>

definition DARK_MODE_BACKGROUND :: string where
  "DARK_MODE_BACKGROUND = ''#1E293B''"

definition DARK_MODE_TEXT :: string where
  "DARK_MODE_TEXT = ''#E2E8F0''"

definition LIGHT_MODE_TEXT :: string where
  "LIGHT_MODE_TEXT = ''#000000''"

definition MARGIN :: real where
  "MARGIN = 15"

definition contentWidth :: "jsEnv \<Rightarrow> real" where
  "contentWidth env = pageWidth env - MARGIN * 2"

definition isDarkMode :: "PdfOptions \<Rightarrow> bool" where
  "isDarkMode options = (theme options = dark)"

definition LINE_HEIGHT :: "PdfOptions \<Rightarrow> real" where
  "LINE_HEIGHT options = fontSize options * 0.5 * lineSpacing options"

definition defaultTextColor :: "PdfOptions \<Rightarrow> string" where
  "defaultTextColor options = (if isDarkMode options then DARK_MODE_TEXT else LIGHT_MODE_TEXT)"

text \<open>
  The mutable variables of the render pass: the document, the vertical position \<open>y\<close>
  (field \<open>ypos\<close>) and the horizontal position \<open>x\<close> of the line being laid out (field
  \<open>xpos\<close>; the code declares it afresh, as \<open>MARGIN\<close>, at the start of every line).
  \<open>ylog\<close> is a history variable, written and never read: it records, at every
  assignment to \<open>y\<close>, the index of the current page and the value assigned.
\<close>

record cursor =
  doc :: jsPDF
  ypos :: real
  xpos :: real
  ylog :: "(nat \<times> real) list"

definition pageIndex :: "cursor \<Rightarrow> nat" where
  "pageIndex st = length (closedPages (doc st))"

definition setY :: "real \<Rightarrow> cursor \<Rightarrow> cursor" where
  "setY v st = st\<lparr>ypos := v, ylog := ylog st @ [(pageIndex st, v)]\<rparr>"

text \<open>\<open>y += d\<close>\<close>

definition advanceY :: "real \<Rightarrow> cursor \<Rightarrow> cursor" where
  "advanceY d st = setY (ypos st + d) st"

definition onDoc :: "(jsPDF \<Rightarrow> jsPDF) \<Rightarrow> cursor \<Rightarrow> cursor" where
  "onDoc f st = st\<lparr>doc := f (doc st)\<rparr>"

definition onDocE :: "(jsPDF \<Rightarrow> jsPDF option) \<Rightarrow> cursor \<Rightarrow> cursor option" where
  "onDocE f st = map_option (\<lambda>d. st\<lparr>doc := d\<rparr>) (f (doc st))"

text \<open>\<open>for (const a of as)\<close> and \<open>as.forEach\<close>: an exception ends the loop.\<close>

fun forEach :: "('a \<Rightarrow> 's \<Rightarrow> 's option) \<Rightarrow> 'a list \<Rightarrow> 's \<Rightarrow> 's option" where
  "forEach f [] s = Some s"
| "forEach f (a # as) s = (case f a s of None \<Rightarrow> None | Some s' \<Rightarrow> forEach f as s')"

definition addPageBackground :: "jsEnv \<Rightarrow> PdfOptions \<Rightarrow> cursor \<Rightarrow> cursor option" where
  "addPageBackground env options st =
     (if isDarkMode options then do {
        st1 \<leftarrow> onDocE (setFillColor env DARK_MODE_BACKGROUND) st;
        Some (onDoc (rect 0 0 (pageWidth env) (pageHeight env) ''F'') st1)
      } else Some st)"

definition checkNewPage :: "jsEnv \<Rightarrow> PdfOptions \<Rightarrow> real \<Rightarrow> cursor \<Rightarrow> cursor option" where
  "checkNewPage env options neededHeight st =
     (if ypos st + neededHeight > pageHeight env - MARGIN then do {
        st1 \<leftarrow> addPageBackground env options (onDoc addPage st);
        Some (setY MARGIN st1)
      } else Some st)"

text \<open>The regular expression \<open>/^#[0-9A-F]{6}$/i\<close>.\<close>

definition isHexDigit :: "char \<Rightarrow> bool" where
  "isHexDigit c = (c \<in> set ''0123456789ABCDEFabcdef'')"

definition hexColorTest :: "string \<Rightarrow> bool" where
  "hexColorTest s = (case s of [] \<Rightarrow> False
     | h # ds \<Rightarrow> h = CHR ''#'' \<and> length ds = 6 \<and> list_all isHexDigit ds)"

text \<open>Lines 95 to 105: the colour a token is drawn in.\<close>

definition tokenColor :: "PdfOptions \<Rightarrow> string \<Rightarrow> string" where
  "tokenColor options c =
     (let color1 =
        (if isDarkMode options \<and> (c = ''#000000'' \<or> c = ''black'') then DARK_MODE_TEXT
         else if \<not> isDarkMode options \<and> (c = ''#FFFFFF'' \<or> c = ''white'') then LIGHT_MODE_TEXT
         else c)
      in if hexColorTest color1 then color1 else defaultTextColor options)"

text \<open>The body of \<open>line.tokens.forEach\<close>.\<close>

definition renderToken :: "jsEnv \<Rightarrow> PdfOptions \<Rightarrow> HighlightedToken \<Rightarrow> cursor \<Rightarrow> cursor option" where
  "renderToken env options token st = do {
     st1 \<leftarrow> onDocE (setTextColor env (tokenColor options (color token))) st;
     let tokenWidth = getTextWidth env (docFont (doc st1)) (tokenText token);
     st2 \<leftarrow> (if xpos st1 > MARGIN \<and> xpos st1 + tokenWidth > pageWidth env - MARGIN
             then do {
               st' \<leftarrow> checkNewPage env options (LINE_HEIGHT options)
                        (advanceY (LINE_HEIGHT options) st1);
               Some (st'\<lparr>xpos := MARGIN\<rparr>)
             } else Some st1);
     let st3 = onDoc (docText (Str (tokenText token)) (xpos st2) (ypos st2)) st2;
     Some (st3\<lparr>xpos := xpos st3 + tokenWidth\<rparr>)
   }"

text \<open>The body of \<open>file.lines.forEach\<close>.\<close>

definition renderLine :: "jsEnv \<Rightarrow> PdfOptions \<Rightarrow> HighlightedLine \<Rightarrow> cursor \<Rightarrow> cursor option" where
  "renderLine env options line st = do {
     st1 \<leftarrow> checkNewPage env options (LINE_HEIGHT options) st;
     let st2 = st1\<lparr>xpos := MARGIN\<rparr>;
     if length (tokens line) = 0 then Some (advanceY (LINE_HEIGHT options) st2)
     else do {
       st3 \<leftarrow> forEach (renderToken env options) (tokens line) st2;
       Some (advanceY (LINE_HEIGHT options) st3)
     }
   }"

definition separatorText :: "HighlightedFile \<Rightarrow> string" where
  "separatorText file = ''File: '' @ path file @ '' ('' @ language file @ '')''"

text \<open>The body of \<open>data.files.forEach\<close>.\<close>

definition renderFile :: "jsEnv \<Rightarrow> PdfOptions \<Rightarrow> HighlightedFile \<Rightarrow> cursor \<Rightarrow> cursor option" where
  "renderFile env options file st = do {
     st1 \<leftarrow> checkNewPage env options 20 (advanceY 10 st);
     st2 \<leftarrow> onDocE (setTextColor env (defaultTextColor options)) st1;
     let st3 = onDoc (setFontSize 12) (onDoc (setFont (font options) bold) st2);
     let separatorLines = splitTextToSize env (docFont (doc st3)) (separatorText file) (contentWidth env);
     let st4 = onDoc (docText (Lines separatorLines) MARGIN (ypos st3)) st3;
     let st5 = advanceY (real (length separatorLines) * 6 + 4) st4;
     let st6 = onDoc (setFontSize (fontSize options)) (onDoc (setFont (font options) normal) st5);
     forEach (renderLine env options) (lines file) st6
   }"

text \<open>The body of the loop over \<open>data.tableOfContents\<close>.\<close>

definition renderTocEntry :: "jsEnv \<Rightarrow> PdfOptions \<Rightarrow> string \<Rightarrow> cursor \<Rightarrow> cursor option" where
  "renderTocEntry env options p st = do {
     let pathLines = splitTextToSize env (docFont (doc st)) p (contentWidth env);
     st1 \<leftarrow> checkNewPage env options (real (length pathLines) * LINE_HEIGHT options) st;
     let st2 = onDoc (docText (Lines pathLines) MARGIN (ypos st1)) st1;
     Some (advanceY (real (length pathLines) * LINE_HEIGHT options) st2)
   }"

text \<open>Lines 38 to 50: initial page setup and the title.\<close>

definition renderTitle :: "jsEnv \<Rightarrow> PdfOptions \<Rightarrow> FormattedRepoData \<Rightarrow> cursor option" where
  "renderTitle env options data = do {
     st0 \<leftarrow> addPageBackground env options
             \<lparr>doc = newJsPDF, ypos = MARGIN, xpos = MARGIN, ylog = [(0, MARGIN)]\<rparr>;
     st1 \<leftarrow> onDocE (setTextColor env (defaultTextColor options)) st0;
     let st2 = onDoc (setFontSize 24) (onDoc (setFont (font options) bold) st1);
     let titleLines = splitTextToSize env (docFont (doc st2)) (title data) (contentWidth env);
     st3 \<leftarrow> checkNewPage env options (real (length titleLines) * 12) st2;
     let st4 = onDoc (docText (Lines titleLines) MARGIN (ypos st3)) st3;
     let st5 = advanceY (real (length titleLines) * 12 + 10) st4;
     onDocE (setTextColor env (defaultTextColor options)) st5
   }"

text \<open>Lines 52 to 66: the table of contents.\<close>

definition renderToc :: "jsEnv \<Rightarrow> PdfOptions \<Rightarrow> FormattedRepoData \<Rightarrow> cursor \<Rightarrow> cursor option" where
  "renderToc env options data st = do {
     st1 \<leftarrow> checkNewPage env options 20 st;
     let st2 = onDoc (setFontSize 16) (onDoc (setFont (font options) bold) st1);
     let st3 = onDoc (docText (Str ''Table of Contents'') MARGIN (ypos st2)) st2;
     let st4 = advanceY 8 st3;
     let st5 = onDoc (setFontSize (fontSize options)) (onDoc (setFont (font options) normal) st4);
     forEach (renderTocEntry env options) (tableOfContents data) st5
   }"

text \<open>The whole render pass, up to the serialization.\<close>

definition renderRepo :: "jsEnv \<Rightarrow> FormattedRepoData \<Rightarrow> PdfOptions \<Rightarrow> cursor option" where
  "renderRepo env data options = do {
     st1 \<leftarrow> renderTitle env options data;
     st2 \<leftarrow> renderToc env options data st1;
     forEach (renderFile env options) (files data) st2
   }"

definition generateRepoPdf :: "jsEnv \<Rightarrow> string \<Rightarrow> FormattedRepoData \<Rightarrow> PdfOptions \<Rightarrow> blob option" where
  "generateRepoPdf env repoName data options = do {
     st \<leftarrow> renderRepo env data options;
     Some (docOutput env (doc st))
   }"

section \<open>Ordering the files (src/services/gemini.ts)\<close>

text \<open>\<open>Array.prototype.indexOf\<close>: the first index of the value, or \<open>-1\<close>.\<close>

fun indexOf :: "'a list \<Rightarrow> 'a \<Rightarrow> int" where
  "indexOf [] v = - 1"
| "indexOf (x # xs) v =
     (if x = v then 0 else (let i = indexOf xs v in if i < 0 then - 1 else i + 1))"

text \<open>
  \<open>Array.prototype.sort\<close> with a comparator. The language guarantees a stable sort; for
  a comparator that is consistent, as a difference of integer keys is, the result is the
  one that stable insertion produces: an element goes before the first element that the
  comparator does not put before it.
\<close>

fun insertBy :: "('a \<Rightarrow> 'a \<Rightarrow> int) \<Rightarrow> 'a \<Rightarrow> 'a list \<Rightarrow> 'a list" where
  "insertBy cmp a [] = [a]"
| "insertBy cmp a (b # bs) = (if cmp a b \<le> 0 then a # b # bs else b # insertBy cmp a bs)"

definition arraySort :: "('a \<Rightarrow> 'a \<Rightarrow> int) \<Rightarrow> 'a list \<Rightarrow> 'a list" where
  "arraySort cmp as = foldr (insertBy cmp) as []"

text \<open>Lines 176 to 180 of \<open>formatRepoForPdf\<close>.\<close>

definition sortedHighlightedFiles :: "string list \<Rightarrow> HighlightedFile list \<Rightarrow> HighlightedFile list" where
  "sortedHighlightedFiles toc highlightedFiles =
     arraySort (\<lambda>a b. indexOf toc (path a) - indexOf toc (path b)) highlightedFiles"

section \<open>Observations on a render pass\<close>

text \<open>What \<open>addPageBackground\<close> draws on a fresh page: the dark fill, or nothing.\<close>

definition pageBackground :: "jsEnv \<Rightarrow> PdfOptions \<Rightarrow> drawOp list" where
  "pageBackground env options =
     (if isDarkMode options
      then [Rect 0 0 (pageWidth env) (pageHeight env) ''F'' DARK_MODE_BACKGROUND] else [])"

text \<open>The text runs of a document: the arguments of its calls of \<open>doc.text\<close>, in order.\<close>

fun opText :: "drawOp \<Rightarrow> textArg list" where
  "opText (TextOp t x y c f) = [t]"
| "opText (Rect x y w h s c) = []"

definition texts :: "jsPDF \<Rightarrow> textArg list" where
  "texts d = concat (map opText (allOps d))"

text \<open>The measured width of a token at a cursor, and the test of line 110.\<close>

definition tokenWidthAt :: "jsEnv \<Rightarrow> cursor \<Rightarrow> HighlightedToken \<Rightarrow> real" where
  "tokenWidthAt env st token = getTextWidth env (docFont (doc st)) (tokenText token)"

definition wrapsToken :: "jsEnv \<Rightarrow> cursor \<Rightarrow> HighlightedToken \<Rightarrow> bool" where
  "wrapsToken env st token \<longleftrightarrow>
     xpos st > MARGIN \<and> xpos st + tokenWidthAt env st token > pageWidth env - MARGIN"

text \<open>The cursor after \<open>doc.setTextColor\<close> with the colour of the token.\<close>

definition colored :: "PdfOptions \<Rightarrow> HighlightedToken \<Rightarrow> cursor \<Rightarrow> cursor" where
  "colored options token st = st\<lparr>doc := (doc st)\<lparr>textColor := tokenColor options (color token)\<rparr>\<rparr>"

text \<open>The text runs expected of a line, a file, the title and the table of contents.\<close>

definition lineTexts :: "HighlightedLine \<Rightarrow> textArg list" where
  "lineTexts line = map (\<lambda>t. Str (tokenText t)) (tokens line)"

definition fileTexts :: "jsEnv \<Rightarrow> PdfOptions \<Rightarrow> HighlightedFile \<Rightarrow> textArg list" where
  "fileTexts env options file =
     Lines (splitTextToSize env (font options, bold, 12) (separatorText file) (contentWidth env))
       # concat (map lineTexts (lines file))"

definition titleTexts :: "jsEnv \<Rightarrow> PdfOptions \<Rightarrow> FormattedRepoData \<Rightarrow> textArg list" where
  "titleTexts env options data =
     [Lines (splitTextToSize env (font options, bold, 24) (title data) (contentWidth env))]"

definition tocTexts :: "jsEnv \<Rightarrow> PdfOptions \<Rightarrow> FormattedRepoData \<Rightarrow> textArg list" where
  "tocTexts env options data =
     Str ''Table of Contents''
       # map (\<lambda>p. Lines (splitTextToSize env (font options, normal, fontSize options) p (contentWidth env)))
           (tableOfContents data)"

text \<open>The library accepts at least every six-digit hexadecimal colour.\<close>

definition colorsAccepted :: "jsEnv \<Rightarrow> bool" where
  "colorsAccepted env \<longleftrightarrow> (\<forall>c. hexColorTest c \<longrightarrow> acceptsColor env c)"

text \<open>The anchor of a text run lies between the top and the bottom margin.\<close>

fun opInBounds :: "jsEnv \<Rightarrow> drawOp \<Rightarrow> bool" where
  "opInBounds env (TextOp t x y c f) = (MARGIN \<le> y \<and> y \<le> pageHeight env - MARGIN)"
| "opInBounds env (Rect x y w h s c) = True"



text \<open>
  One assignment to \<open>y\<close> after another: either the page is the same and \<open>y\<close> has not
  decreased, or the page is the next one and \<open>y\<close> is the top margin.
\<close>

definition cursorStep :: "nat \<times> real \<Rightarrow> nat \<times> real \<Rightarrow> bool" where
  "cursorStep a b \<longleftrightarrow>
     (fst b = fst a \<and> snd a \<le> snd b) \<or> (fst b = Suc (fst a) \<and> snd b = MARGIN)"

text \<open>The history starts at the top of the first page, ends at the cursor and only makes such steps.\<close>

definition logOk :: "cursor \<Rightarrow> bool" where
  "logOk st \<longleftrightarrow> ylog st \<noteq> [] \<and> hd (ylog st) = (0, MARGIN)
     \<and> last (ylog st) = (pageIndex st, ypos st) \<and> successively cursorStep (ylog st)"

text \<open>The sort key of a file: the index of its path in the table of contents.\<close>

definition tocIndex :: "string list \<Rightarrow> HighlightedFile \<Rightarrow> int" where
  "tocIndex toc f = indexOf toc (path f)"

section \<open>Example inputs\<close>

definition exFile :: "string \<Rightarrow> HighlightedFile" where
  "exFile p = \<lparr>path = p, language = ''typescript'', lines = []\<rparr>"

definition exEnv :: jsEnv where
  "exEnv = \<lparr>pageWidth = 210, pageHeight = 297,
     getTextWidth = (\<lambda>f s. 2 * real (length s)),
     splitTextToSize = (\<lambda>f s w. [s]),
     acceptsColor = hexColorTest,
     docOutput = (\<lambda>d. ''%PDF'')\<rparr>"

definition exOptions :: PdfOptions where
  "exOptions = \<lparr>font = Courier, fontSize = 9, lineSpacing = 1.15, theme = light\<rparr>"

definition exLine :: HighlightedLine where
  "exLine = \<lparr>tokens = [\<lparr>tokenText = ''const'', color = ''#800080''\<rparr>,
     \<lparr>tokenText = '' '', color = ''#000000''\<rparr>, \<lparr>tokenText = ''a'', color = ''#0000FF''\<rparr>]\<rparr>"

definition exData :: FormattedRepoData where
  "exData = \<lparr>title = ''Code Documentation for demo'', tableOfContents = [''x.ts''],
     files = [\<lparr>path = ''x.ts'', language = ''typescript'', lines = [exLine]\<rparr>]\<rparr>"

definition exCursor :: "real \<Rightarrow> cursor" where
  "exCursor x = \<lparr>doc = setFontSize 9 (setFont Courier normal newJsPDF), ypos = 15, xpos = x,
     ylog = [(0, 15)]\<rparr>"

definition exToken :: HighlightedToken where
  "exToken = \<lparr>tokenText = ''const'', color = ''#800080''\<rparr>"

definition exDarkOptions :: PdfOptions where
  "exDarkOptions = \<lparr>font = Helvetica, fontSize = 10, lineSpacing = 1, theme = dark\<rparr>"

definition exWideToken :: HighlightedToken where
  "exWideToken = \<lparr>tokenText = replicate 100 CHR ''x'', color = ''fuchsia''\<rparr>"

definition exBlankLine :: HighlightedLine where
  "exBlankLine = \<lparr>tokens = []\<rparr>"

text \<open>
  From one cursor to a later one the closed pages are kept as they are and the drawing
  operations of the document are only added to, at the end.
\<close>

definition pagesKept :: "cursor \<Rightarrow> cursor \<Rightarrow> bool" where
  "pagesKept s s' \<longleftrightarrow> prefix (closedPages (doc s)) (closedPages (doc s'))
     \<and> prefix (allOps (doc s)) (allOps (doc s'))"

definition exBigOptions :: PdfOptions where
  "exBigOptions = \<lparr>font = Times, fontSize = 100, lineSpacing = 1.15, theme = dark\<rparr>"

definition exLongData :: FormattedRepoData where
  "exLongData = \<lparr>title = ''Code Documentation for demo'', tableOfContents = [''x.ts''],
     files = [\<lparr>path = ''x.ts'', language = ''typescript'', lines = [exLine, exBlankLine, exLine]\<rparr>]\<rparr>"

definition exEmptyData :: FormattedRepoData where
  "exEmptyData = \<lparr>title = ''Code Documentation for demo'', tableOfContents = [''x.ts''],
     files = []\<rparr>"

definition exToc :: "string list" where
  "exToc = [''b.ts'', ''a.ts'']"

definition exJoinData :: "HighlightedFile list \<Rightarrow> FormattedRepoData" where
  "exJoinData hf = \<lparr>title = ''Demo'', tableOfContents = exToc,
     files = sortedHighlightedFiles exToc hf\<rparr>"

section \<open>The document operations and the page check\<close>

lemma onDocE_Some: "onDocE f st = Some st' \<longleftrightarrow> (\<exists>d. f (doc st) = Some d \<and> st' = st\<lparr>doc := d\<rparr>)"
  by (auto simp: onDocE_def)

lemma setTextColor_Some: "setTextColor env c d = Some d' \<longleftrightarrow> acceptsColor env c \<and> d' = d\<lparr>textColor := c\<rparr>"
  by (auto simp: setTextColor_def)

lemma setFillColor_Some: "setFillColor env c d = Some d' \<longleftrightarrow> acceptsColor env c \<and> d' = d\<lparr>fillColor := c\<rparr>"
  by (auto simp: setFillColor_def)

lemma addPageBackground_Some:
  assumes "addPageBackground env options st = Some st'"
  shows "closedPages (doc st') = closedPages (doc st)"
    and "currentPage (doc st') = currentPage (doc st) @ pageBackground env options"
    and "textColor (doc st') = textColor (doc st)"
    and "docFont (doc st') = docFont (doc st)"
    and "ypos st' = ypos st" and "xpos st' = xpos st" and "ylog st' = ylog st"
  using assms
  by (auto simp: addPageBackground_def pageBackground_def onDocE_Some setFillColor_Some onDoc_def
      rect_def draw_def bind_eq_Some_conv split: if_splits)

lemma checkNewPage_keep:
  "\<not> ypos st + h > pageHeight env - MARGIN \<Longrightarrow> checkNewPage env options h st = Some st"
  by (simp add: checkNewPage_def)

lemma checkNewPage_break:
  assumes "checkNewPage env options h st = Some st'" and "ypos st + h > pageHeight env - MARGIN"
  shows "closedPages (doc st') = closedPages (doc st) @ [currentPage (doc st)]"
    and "currentPage (doc st') = pageBackground env options"
    and "textColor (doc st') = textColor (doc st)"
    and "docFont (doc st') = docFont (doc st)"
    and "ypos st' = MARGIN" and "xpos st' = xpos st"
    and "ylog st' = ylog st @ [(Suc (pageIndex st), MARGIN)]"
proof -
  from assms obtain st1 where bg: "addPageBackground env options (onDoc addPage st) = Some st1"
    and st': "st' = setY MARGIN st1"
    by (auto simp: checkNewPage_def bind_eq_Some_conv)
  note f = addPageBackground_Some [OF bg]
  show "closedPages (doc st') = closedPages (doc st) @ [currentPage (doc st)]"
    and "currentPage (doc st') = pageBackground env options"
    and "textColor (doc st') = textColor (doc st)"
    and "docFont (doc st') = docFont (doc st)"
    and "ypos st' = MARGIN" and "xpos st' = xpos st"
    and "ylog st' = ylog st @ [(Suc (pageIndex st), MARGIN)]"
    using f by (simp_all add: st' setY_def pageIndex_def onDoc_def addPage_def)
qed

section \<open>Loops\<close>

lemma forEach_append:
  "forEach f (as @ bs) s = Some s' \<longleftrightarrow> (\<exists>t. forEach f as s = Some t \<and> forEach f bs t = Some s')"
  by (induction as arbitrary: s) (auto split: option.splits)

lemma forEach_invariant:
  assumes "forEach f as s = Some s'" and "I s"
    and "\<And>a t t'. a \<in> set as \<Longrightarrow> I t \<Longrightarrow> f a t = Some t' \<Longrightarrow> I t'"
  shows "I s'"
  using assms
proof (induction as arbitrary: s)
  case Nil
  then show ?case by simp
next
  case (Cons a as)
  from Cons.prems(1) obtain t where t: "f a s = Some t" and rest: "forEach f as t = Some s'"
    by (auto split: option.splits)
  have "I t" using Cons.prems(3) [of a s t] Cons.prems(2) t by simp
  show ?case
  proof (rule Cons.IH [OF rest \<open>I t\<close>])
    fix b u u'
    assume "b \<in> set as" "I u" "f b u = Some u'"
    then show "I u'" using Cons.prems(3) [of b u u'] by simp
  qed
qed

lemma forEach_total:
  assumes "\<And>a t. a \<in> set as \<Longrightarrow> \<exists>t'. f a t = Some t'"
  shows "\<exists>s'. forEach f as s = Some s'"
  using assms
proof (induction as arbitrary: s)
  case Nil
  then show ?case by simp
next
  case (Cons a as)
  then obtain t where "f a s = Some t" by fastforce
  with Cons show ?case by simp
qed

text \<open>The effect of a loop on an observation that every iteration extends.\<close>

lemma forEach_extends:
  assumes "forEach f as s = Some s'" and "I s"
    and "\<And>a t t'. a \<in> set as \<Longrightarrow> I t \<Longrightarrow> f a t = Some t' \<Longrightarrow> I t' \<and> g t' = g t @ h a"
  shows "I s' \<and> g s' = g s @ concat (map h as)"
  using assms
proof (induction as arbitrary: s)
  case Nil
  then show ?case by simp
next
  case (Cons a as)
  from Cons.prems(1) obtain t where t: "f a s = Some t" and rest: "forEach f as t = Some s'"
    by (auto split: option.splits)
  have step: "I t \<and> g t = g s @ h a" using Cons.prems(3) [of a s t] Cons.prems(2) t by simp
  have "I s' \<and> g s' = g t @ concat (map h as)"
  proof (rule Cons.IH [OF rest])
    show "I t" using step by simp
  next
    fix b u u'
    assume "b \<in> set as" "I u" "f b u = Some u'"
    then show "I u' \<and> g u' = g u @ h b" using Cons.prems(3) [of b u u'] by simp
  qed
  with step show ?case by simp
qed

section \<open>The page check, the fields it keeps\<close>

lemma texts_pageBackground [simp]: "concat (map opText (pageBackground env options)) = []"
  by (simp add: pageBackground_def)

lemma checkNewPage_texts:
  assumes "checkNewPage env options h st = Some st'"
  shows "texts (doc st') = texts (doc st)"
proof (cases "ypos st + h > pageHeight env - MARGIN")
  case True
  from checkNewPage_break(1,2) [OF assms True] show ?thesis
    by (simp add: texts_def allOps_def)
next
  case False
  with assms show ?thesis by (simp add: checkNewPage_keep)
qed

lemma checkNewPage_font:
  assumes "checkNewPage env options h st = Some st'"
  shows "docFont (doc st') = docFont (doc st)" and "xpos st' = xpos st"
    and "textColor (doc st') = textColor (doc st)"
proof (atomize (full), cases "ypos st + h > pageHeight env - MARGIN")
  case True
  from checkNewPage_break [OF assms True] show "docFont (doc st') = docFont (doc st) \<and> xpos st' = xpos st \<and> textColor (doc st') = textColor (doc st)"
    by simp
next
  case False
  with assms show "docFont (doc st') = docFont (doc st) \<and> xpos st' = xpos st \<and> textColor (doc st') = textColor (doc st)" by (simp add: checkNewPage_keep)
qed

lemma docText_simps [simp]:
  "closedPages (docText t x y d) = closedPages d"
  "currentPage (docText t x y d) = currentPage d @ [TextOp t x y (textColor d) (docFont d)]"
  "docFont (docText t x y d) = docFont d"
  "textColor (docText t x y d) = textColor d"
  "fillColor (docText t x y d) = fillColor d"
  by (simp_all add: docText_def draw_def)

lemma setFont_simps [simp]:
  "closedPages (setFont n s d) = closedPages d"
  "currentPage (setFont n s d) = currentPage d"
  "docFont (setFont n s d) = (n, s, snd (snd (docFont d)))"
  "textColor (setFont n s d) = textColor d"
  "closedPages (setFontSize z d) = closedPages d"
  "currentPage (setFontSize z d) = currentPage d"
  "docFont (setFontSize z d) = (fst (docFont d), fst (snd (docFont d)), z)"
  "textColor (setFontSize z d) = textColor d"
  by (simp_all add: setFont_def setFontSize_def)

lemma onDoc_simps [simp]:
  "doc (onDoc f st) = f (doc st)" "ypos (onDoc f st) = ypos st"
  "xpos (onDoc f st) = xpos st" "ylog (onDoc f st) = ylog st"
  "pageIndex (onDoc (docText t x y) st) = pageIndex st"
  "pageIndex (onDoc (setFont n s) st) = pageIndex st"
  "pageIndex (onDoc (setFontSize z) st) = pageIndex st"
  by (simp_all add: onDoc_def pageIndex_def)

lemma setY_simps [simp]:
  "doc (setY v st) = doc st" "ypos (setY v st) = v" "xpos (setY v st) = xpos st"
  "ylog (setY v st) = ylog st @ [(pageIndex st, v)]" "pageIndex (setY v st) = pageIndex st"
  by (simp_all add: setY_def pageIndex_def)

lemma advanceY_simps [simp]:
  "doc (advanceY v st) = doc st" "ypos (advanceY v st) = ypos st + v"
  "xpos (advanceY v st) = xpos st"
  "ylog (advanceY v st) = ylog st @ [(pageIndex st, ypos st + v)]"
  "pageIndex (advanceY v st) = pageIndex st"
  by (simp_all add: advanceY_def)

lemma pageIndex_xpos [simp]: "pageIndex (st\<lparr>xpos := v\<rparr>) = pageIndex st"
  by (simp add: pageIndex_def)

lemma colored_simps [simp]:
  "ypos (colored options token st) = ypos st" "xpos (colored options token st) = xpos st"
  "ylog (colored options token st) = ylog st" "pageIndex (colored options token st) = pageIndex st"
  "closedPages (doc (colored options token st)) = closedPages (doc st)"
  "currentPage (doc (colored options token st)) = currentPage (doc st)"
  "docFont (doc (colored options token st)) = docFont (doc st)"
  "textColor (doc (colored options token st)) = tokenColor options (color token)"
  by (simp_all add: colored_def pageIndex_def)

text \<open>The two paths through \<open>renderToken\<close>, made explicit.\<close>

lemma renderToken_nowrap:
  assumes "renderToken env options token st = Some st'" and "\<not> wrapsToken env st token"
  shows "st' = (onDoc (docText (Str (tokenText token)) (xpos st) (ypos st)) (colored options token st))
                 \<lparr>xpos := xpos st + tokenWidthAt env st token\<rparr>"
  using assms
  by (auto simp: renderToken_def bind_eq_Some_conv onDocE_Some setTextColor_Some Let_def
      wrapsToken_def tokenWidthAt_def colored_def split: if_splits)

lemma renderToken_wrap:
  assumes "renderToken env options token st = Some st'" and "wrapsToken env st token"
  shows "\<exists>stc. checkNewPage env options (LINE_HEIGHT options)
                 (advanceY (LINE_HEIGHT options) (colored options token st)) = Some stc
           \<and> st' = (onDoc (docText (Str (tokenText token)) MARGIN (ypos stc)) (stc\<lparr>xpos := MARGIN\<rparr>))
                 \<lparr>xpos := MARGIN + tokenWidthAt env st token\<rparr>"
  using assms
  by (auto simp: renderToken_def bind_eq_Some_conv onDocE_Some setTextColor_Some Let_def
      wrapsToken_def tokenWidthAt_def colored_def split: if_splits)

section \<open>The text runs drawn by each part of the pass\<close>

lemma texts_docText [simp]:
  "texts (docText t x y d) = texts d @ [t]"
  by (simp add: texts_def allOps_def)

lemma texts_textColor [simp]: "texts (d\<lparr>textColor := c\<rparr>) = texts d"
  by (simp add: texts_def allOps_def)

lemma texts_setFont [simp]:
  "texts (setFont n s d) = texts d" "texts (setFontSize z d) = texts d"
  by (simp_all add: texts_def allOps_def)

lemma renderToken_texts:
  assumes "renderToken env options token st = Some st'"
  shows "texts (doc st') = texts (doc st) @ [Str (tokenText token)]"
    and "docFont (doc st') = docFont (doc st)"
proof (atomize (full), cases "wrapsToken env st token")
  case True
  from renderToken_wrap [OF assms True] obtain stc where
    c: "checkNewPage env options (LINE_HEIGHT options)
          (advanceY (LINE_HEIGHT options) (colored options token st)) = Some stc"
    and e: "st' = (onDoc (docText (Str (tokenText token)) MARGIN (ypos stc)) (stc\<lparr>xpos := MARGIN\<rparr>))
                 \<lparr>xpos := MARGIN + tokenWidthAt env st token\<rparr>"
    by blast
  from checkNewPage_texts [OF c] checkNewPage_font(1) [OF c]
  show "texts (doc st') = texts (doc st) @ [Str (tokenText token)] \<and> docFont (doc st') = docFont (doc st)"
    by (simp add: e colored_def)
next
  case False
  from renderToken_nowrap [OF assms False]
  show "texts (doc st') = texts (doc st) @ [Str (tokenText token)] \<and> docFont (doc st') = docFont (doc st)"
    by (simp add: colored_def)
qed

lemma renderLine_texts:
  assumes "renderLine env options line st = Some st'"
  shows "docFont (doc st') = docFont (doc st) \<and>
         texts (doc st') = texts (doc st) @ map (\<lambda>t. Str (tokenText t)) (tokens line)"
proof -
  from assms obtain st1 where c: "checkNewPage env options (LINE_HEIGHT options) st = Some st1"
    and r: "(if length (tokens line) = 0 then Some (advanceY (LINE_HEIGHT options) (st1\<lparr>xpos := MARGIN\<rparr>))
             else do { st3 \<leftarrow> forEach (renderToken env options) (tokens line) (st1\<lparr>xpos := MARGIN\<rparr>);
                       Some (advanceY (LINE_HEIGHT options) st3) }) = Some st'"
    by (auto simp: renderLine_def bind_eq_Some_conv Let_def)
  note c1 = checkNewPage_texts [OF c] checkNewPage_font(1) [OF c]
  show ?thesis
  proof (cases "tokens line = []")
    case True
    with r c1 show ?thesis by auto
  next
    case False
    with r obtain st3 where
      l: "forEach (renderToken env options) (tokens line) (st1\<lparr>xpos := MARGIN\<rparr>) = Some st3"
      and e: "st' = advanceY (LINE_HEIGHT options) st3"
      by (auto simp: bind_eq_Some_conv)
    have "docFont (doc st3) = docFont (doc st) \<and>
          texts (doc st3) = texts (doc (st1\<lparr>xpos := MARGIN\<rparr>)) @ concat (map (\<lambda>t. [Str (tokenText t)]) (tokens line))"
      by (rule forEach_extends [OF l, where I = "\<lambda>s. docFont (doc s) = docFont (doc st)"
            and g = "\<lambda>s. texts (doc s)"])
         (simp_all add: c1 renderToken_texts)
    then show ?thesis by (simp add: e c1 concat_map_singleton)
  qed
qed

lemma renderFile_texts:
  assumes "renderFile env options file st = Some st'"
  shows "docFont (doc st') = (font options, normal, fontSize options) \<and>
         texts (doc st') = texts (doc st) @ fileTexts env options file"
proof -
  from assms obtain st1 st2 where c: "checkNewPage env options 20 (advanceY 10 st) = Some st1"
    and t: "st2 = st1\<lparr>doc := (doc st1)\<lparr>textColor := defaultTextColor options\<rparr>\<rparr>"
    and l: "forEach (renderLine env options) (lines file)
        (onDoc (setFontSize (fontSize options)) (onDoc (setFont (font options) normal)
          (advanceY (real (length (splitTextToSize env (font options, bold, 12) (separatorText file) (contentWidth env))) * 6 + 4)
            (onDoc (docText (Lines (splitTextToSize env (font options, bold, 12) (separatorText file) (contentWidth env))) MARGIN (ypos st2))
              (onDoc (setFontSize 12) (onDoc (setFont (font options) bold) st2)))))) = Some st'"
      (is "forEach _ _ ?s6 = _")
    by (auto simp: renderFile_def bind_eq_Some_conv Let_def onDocE_Some setTextColor_Some)
  note c1 = checkNewPage_texts [OF c]
  have "docFont (doc st') = (font options, normal, fontSize options) \<and>
        texts (doc st') = texts (doc ?s6) @ concat (map lineTexts (lines file))"
    by (rule forEach_extends [OF l, where I = "\<lambda>s. docFont (doc s) = (font options, normal, fontSize options)"
          and g = "\<lambda>s. texts (doc s)"])
       (auto simp: lineTexts_def dest: renderLine_texts)
  then show ?thesis
    using c1 by (simp add: t fileTexts_def)
qed

lemma renderTocEntry_texts:
  assumes "renderTocEntry env options p st = Some st'"
  shows "docFont (doc st') = docFont (doc st) \<and>
         texts (doc st') = texts (doc st) @ [Lines (splitTextToSize env (docFont (doc st)) p (contentWidth env))]"
proof -
  from assms obtain st1 where
    c: "checkNewPage env options (real (length (splitTextToSize env (docFont (doc st)) p (contentWidth env))) * LINE_HEIGHT options) st = Some st1"
    and e: "st' = advanceY (real (length (splitTextToSize env (docFont (doc st)) p (contentWidth env))) * LINE_HEIGHT options)
        (onDoc (docText (Lines (splitTextToSize env (docFont (doc st)) p (contentWidth env))) MARGIN (ypos st1)) st1)"
    by (auto simp: renderTocEntry_def bind_eq_Some_conv Let_def)
  from checkNewPage_texts [OF c] checkNewPage_font(1) [OF c] show ?thesis
    by (simp add: e)
qed

lemma renderTitle_texts:
  assumes "renderTitle env options data = Some st'"
  shows "texts (doc st') = titleTexts env options data"
proof -
  let ?init = "\<lparr>doc = newJsPDF, ypos = MARGIN, xpos = MARGIN, ylog = [(0, MARGIN)]\<rparr>"
  let ?tl = "splitTextToSize env (font options, bold, 24) (title data) (contentWidth env)"
  from assms obtain st0 st1 st3 where
    b: "addPageBackground env options ?init = Some st0"
    and t: "st1 = st0\<lparr>doc := (doc st0)\<lparr>textColor := defaultTextColor options\<rparr>\<rparr>"
    and c: "checkNewPage env options (real (length ?tl) * 12)
              (onDoc (setFontSize 24) (onDoc (setFont (font options) bold) st1)) = Some st3"
    and e: "st' = (advanceY (real (length ?tl) * 12 + 10) (onDoc (docText (Lines ?tl) MARGIN (ypos st3)) st3))
              \<lparr>doc := (doc (advanceY (real (length ?tl) * 12 + 10) (onDoc (docText (Lines ?tl) MARGIN (ypos st3)) st3)))
                 \<lparr>textColor := defaultTextColor options\<rparr>\<rparr>"
    by (auto simp: renderTitle_def bind_eq_Some_conv Let_def onDocE_Some setTextColor_Some)
  from addPageBackground_Some(1,2) [OF b] have "texts (doc st0) = []"
    by (simp add: texts_def allOps_def newJsPDF_def)
  with checkNewPage_texts [OF c] show ?thesis
    by (simp add: e t titleTexts_def)
qed

lemma renderToc_texts:
  assumes "renderToc env options data st = Some st'"
  shows "docFont (doc st') = (font options, normal, fontSize options) \<and>
         texts (doc st') = texts (doc st) @ tocTexts env options data"
proof -
  from assms obtain st1 where c: "checkNewPage env options 20 st = Some st1"
    and l: "forEach (renderTocEntry env options) (tableOfContents data)
        (onDoc (setFontSize (fontSize options)) (onDoc (setFont (font options) normal)
          (advanceY 8 (onDoc (docText (Str ''Table of Contents'') MARGIN (ypos st1))
              (onDoc (setFontSize 16) (onDoc (setFont (font options) bold) st1)))))) = Some st'"
      (is "forEach _ _ ?s5 = _")
    by (auto simp: renderToc_def bind_eq_Some_conv Let_def)
  have "docFont (doc st') = (font options, normal, fontSize options) \<and>
        texts (doc st') = texts (doc ?s5) @ concat (map (\<lambda>p. [Lines (splitTextToSize env (font options, normal, fontSize options) p (contentWidth env))]) (tableOfContents data))"
    by (rule forEach_extends [OF l, where I = "\<lambda>s. docFont (doc s) = (font options, normal, fontSize options)"
          and g = "\<lambda>s. texts (doc s)"])
       (auto dest: renderTocEntry_texts)
  then show ?thesis
    using checkNewPage_texts [OF c] by (simp add: tocTexts_def concat_map_singleton)
qed

lemma renderRepo_texts:
  assumes "renderRepo env data options = Some st"
  shows "texts (doc st) = titleTexts env options data @ tocTexts env options data
           @ concat (map (fileTexts env options) (files data))"
proof -
  from assms obtain st1 st2 where t: "renderTitle env options data = Some st1"
    and c: "renderToc env options data st1 = Some st2"
    and l: "forEach (renderFile env options) (files data) st2 = Some st"
    by (auto simp: renderRepo_def bind_eq_Some_conv)
  have "True \<and> texts (doc st) = texts (doc st2) @ concat (map (fileTexts env options) (files data))"
    by (rule forEach_extends [OF l, where I = "\<lambda>s. True" and g = "\<lambda>s. texts (doc s)"])
       (auto dest: renderFile_texts)
  with renderTitle_texts [OF t] renderToc_texts [OF c] show ?thesis by simp
qed

section \<open>Every call of the library is accepted\<close>

lemma hexColorTest_constants [simp]:
  "hexColorTest DARK_MODE_BACKGROUND" "hexColorTest DARK_MODE_TEXT" "hexColorTest LIGHT_MODE_TEXT"
  by (simp_all add: hexColorTest_def isHexDigit_def DARK_MODE_BACKGROUND_def DARK_MODE_TEXT_def
      LIGHT_MODE_TEXT_def)

lemma hexColorTest_default [simp]: "hexColorTest (defaultTextColor options)"
  by (simp add: defaultTextColor_def)

lemma hexColorTest_tokenColor [simp]: "hexColorTest (tokenColor options c)"
  by (simp add: tokenColor_def Let_def)

lemma addPageBackground_total:
  "colorsAccepted env \<Longrightarrow> \<exists>st'. addPageBackground env options st = Some st'"
  by (simp add: addPageBackground_def colorsAccepted_def onDocE_def setFillColor_def)

lemma checkNewPage_total:
  assumes "colorsAccepted env"
  shows "\<exists>st'. checkNewPage env options h st = Some st'"
proof -
  from addPageBackground_total [OF assms] obtain st1
    where "addPageBackground env options (onDoc addPage st) = Some st1" by blast
  then show ?thesis by (simp add: checkNewPage_def)
qed

lemma setTextColor_total:
  "colorsAccepted env \<Longrightarrow> hexColorTest c \<Longrightarrow>
     onDocE (setTextColor env c) st = Some (st\<lparr>doc := (doc st)\<lparr>textColor := c\<rparr>\<rparr>)"
  by (simp add: colorsAccepted_def onDocE_def setTextColor_def)

lemma renderToken_total:
  assumes "colorsAccepted env"
  shows "\<exists>st'. renderToken env options token st = Some st'"
proof -
  let ?st1 = "st\<lparr>doc := (doc st)\<lparr>textColor := tokenColor options (color token)\<rparr>\<rparr>"
  from checkNewPage_total [OF assms] obtain stc where
    "checkNewPage env options (LINE_HEIGHT options) (advanceY (LINE_HEIGHT options) ?st1) = Some stc"
    by blast
  then show ?thesis
    by (simp add: renderToken_def setTextColor_total [OF assms] Let_def)
qed

lemma renderLine_total:
  assumes "colorsAccepted env"
  shows "\<exists>st'. renderLine env options line st = Some st'"
proof -
  from checkNewPage_total [OF assms] obtain st1 where
    c: "checkNewPage env options (LINE_HEIGHT options) st = Some st1" by blast
  from forEach_total [of "tokens line" "renderToken env options"] renderToken_total [OF assms]
  obtain st3 where "forEach (renderToken env options) (tokens line) (st1\<lparr>xpos := MARGIN\<rparr>) = Some st3"
    by blast
  with c show ?thesis by (simp add: renderLine_def Let_def)
qed

lemma renderFile_total:
  assumes "colorsAccepted env"
  shows "\<exists>st'. renderFile env options file st = Some st'"
proof -
  from checkNewPage_total [OF assms] obtain st1 where
    c: "checkNewPage env options 20 (advanceY 10 st) = Some st1" by blast
  have l: "\<exists>s'. forEach (renderLine env options) (lines file) s = Some s'" for s
    using forEach_total [of "lines file" "renderLine env options"] renderLine_total [OF assms]
    by blast
  show ?thesis
    by (simp add: renderFile_def c setTextColor_total [OF assms] Let_def l)
qed

lemma renderTocEntry_total:
  assumes "colorsAccepted env"
  shows "\<exists>st'. renderTocEntry env options p st = Some st'"
proof -
  from checkNewPage_total [OF assms] obtain st1 where
    "checkNewPage env options
       (real (length (splitTextToSize env (docFont (doc st)) p (contentWidth env))) * LINE_HEIGHT options) st
     = Some st1" by blast
  then show ?thesis by (simp add: renderTocEntry_def Let_def)
qed

lemma renderToc_total:
  assumes "colorsAccepted env"
  shows "\<exists>st'. renderToc env options data st = Some st'"
proof -
  from checkNewPage_total [OF assms] obtain st1 where
    c: "checkNewPage env options 20 st = Some st1" by blast
  have l: "\<exists>s'. forEach (renderTocEntry env options) (tableOfContents data) s = Some s'" for s
    using forEach_total [of "tableOfContents data" "renderTocEntry env options"]
      renderTocEntry_total [OF assms] by blast
  show ?thesis by (simp add: renderToc_def c Let_def l)
qed

lemma renderTitle_total:
  assumes "colorsAccepted env"
  shows "\<exists>st'. renderTitle env options data = Some st'"
proof -
  from addPageBackground_total [OF assms] obtain st0 where
    b: "addPageBackground env options \<lparr>doc = newJsPDF, ypos = MARGIN, xpos = MARGIN, ylog = [(0, MARGIN)]\<rparr>
        = Some st0" by blast
  let ?st2 = "onDoc (setFontSize 24) (onDoc (setFont (font options) bold)
                (st0\<lparr>doc := (doc st0)\<lparr>textColor := defaultTextColor options\<rparr>\<rparr>))"
  from checkNewPage_total [OF assms] obtain st3 where
    "checkNewPage env options
       (real (length (splitTextToSize env (docFont (doc ?st2)) (title data) (contentWidth env))) * 12) ?st2
     = Some st3" by blast
  then show ?thesis
    by (simp add: renderTitle_def b setTextColor_total [OF assms] Let_def)
qed

lemma renderRepo_total:
  assumes "colorsAccepted env"
  shows "\<exists>st. renderRepo env data options = Some st"
proof -
  from renderTitle_total [OF assms] obtain st1 where t: "renderTitle env options data = Some st1"
    by blast
  from renderToc_total [OF assms] obtain st2 where c: "renderToc env options data st1 = Some st2"
    by blast
  from forEach_total [of "files data" "renderFile env options"] renderFile_total [OF assms]
  obtain st where "forEach (renderFile env options) (files data) st2 = Some st" by blast
  with t c show ?thesis by (simp add: renderRepo_def)
qed

section \<open>Text runs stay between the margins\<close>

lemma pageBackground_inBounds [simp]: "list_all (opInBounds env) (pageBackground env options)"
  by (simp add: pageBackground_def)

lemma checkNewPage_allOps:
  assumes "checkNewPage env options h st = Some st'"
  shows "allOps (doc st') = allOps (doc st) @
           (if ypos st + h > pageHeight env - MARGIN then pageBackground env options else [])"
proof (cases "ypos st + h > pageHeight env - MARGIN")
  case True
  from checkNewPage_break(1,2) [OF assms True] True show ?thesis
    by (simp add: allOps_def)
next
  case False
  with assms show ?thesis by (simp add: checkNewPage_keep)
qed


lemma allOps_docText [simp]:
  "allOps (docText t x y d) = allOps d @ [TextOp t x y (textColor d) (docFont d)]"
  by (simp add: allOps_def)

lemma allOps_setFont [simp]:
  "allOps (setFont n s d) = allOps d" "allOps (setFontSize z d) = allOps d"
  "allOps (d\<lparr>textColor := c\<rparr>) = allOps d"
  by (simp_all add: allOps_def)

lemma allOps_colored [simp]: "allOps (doc (colored options token st)) = allOps (doc st)"
  by (simp add: colored_def)








section \<open>The history of the vertical position\<close>

lemma logOk_cong:
  "ylog st' = ylog st \<Longrightarrow> pageIndex st' = pageIndex st \<Longrightarrow> ypos st' = ypos st \<Longrightarrow>
     logOk st' = logOk st"
  by (simp add: logOk_def)

lemma logOk_advanceY: "logOk st \<Longrightarrow> 0 \<le> d \<Longrightarrow> logOk (advanceY d st)"
  by (simp add: logOk_def successively_append_iff cursorStep_def)

lemma logOk_checkNewPage:
  assumes "checkNewPage env options h st = Some st'" and "logOk st"
  shows "logOk st'"
proof (cases "ypos st + h > pageHeight env - MARGIN")
  case True
  from checkNewPage_break(1,5,7) [OF assms(1) True] assms(2) show ?thesis
    by (simp add: logOk_def successively_append_iff cursorStep_def pageIndex_def)
next
  case False
  with assms show ?thesis by (simp add: checkNewPage_keep)
qed

lemma logOk_colored [simp]: "logOk (colored options token st) = logOk st"
  by (rule logOk_cong) simp_all

lemma logOk_onDoc [simp]:
  "logOk (onDoc (docText t x y) st) = logOk st"
  "logOk (onDoc (setFont n s) st) = logOk st"
  "logOk (onDoc (setFontSize z) st) = logOk st"
  by (rule logOk_cong, simp_all)+

lemma logOk_xpos [simp]: "logOk (st\<lparr>xpos := v\<rparr>) = logOk st"
  by (rule logOk_cong) simp_all

lemma logOk_textColor [simp]: "logOk (st\<lparr>doc := (doc st)\<lparr>textColor := c\<rparr>\<rparr>) = logOk st"
  by (rule logOk_cong) (simp_all add: pageIndex_def)

lemma renderToken_logOk:
  assumes "renderToken env options token st = Some st'" and "logOk st"
    and "0 \<le> LINE_HEIGHT options"
  shows "logOk st'"
proof (cases "wrapsToken env st token")
  case True
  from renderToken_wrap [OF assms(1) True] obtain stc where
    c: "checkNewPage env options (LINE_HEIGHT options)
          (advanceY (LINE_HEIGHT options) (colored options token st)) = Some stc"
    and e: "st' = (onDoc (docText (Str (tokenText token)) MARGIN (ypos stc)) (stc\<lparr>xpos := MARGIN\<rparr>))
                 \<lparr>xpos := MARGIN + tokenWidthAt env st token\<rparr>"
    by blast
  have "logOk (advanceY (LINE_HEIGHT options) (colored options token st))"
    using assms(2,3) by (simp add: logOk_advanceY)
  from logOk_checkNewPage [OF c this] show ?thesis by (simp add: e)
next
  case False
  from renderToken_nowrap [OF assms(1) False] assms(2) show ?thesis by simp
qed

lemma renderLine_logOk:
  assumes "renderLine env options line st = Some st'" and "logOk st"
    and "0 \<le> LINE_HEIGHT options"
  shows "logOk st'"
proof -
  from assms(1) obtain st1 where c: "checkNewPage env options (LINE_HEIGHT options) st = Some st1"
    and r: "(if length (tokens line) = 0 then Some (advanceY (LINE_HEIGHT options) (st1\<lparr>xpos := MARGIN\<rparr>))
             else do { st3 \<leftarrow> forEach (renderToken env options) (tokens line) (st1\<lparr>xpos := MARGIN\<rparr>);
                       Some (advanceY (LINE_HEIGHT options) st3) }) = Some st'"
    by (auto simp: renderLine_def bind_eq_Some_conv Let_def)
  from logOk_checkNewPage [OF c assms(2)] have s2: "logOk (st1\<lparr>xpos := MARGIN\<rparr>)" by simp
  show ?thesis
  proof (cases "tokens line = []")
    case True
    with r s2 assms(3) show ?thesis by (auto simp: logOk_advanceY)
  next
    case False
    with r obtain st3 where
      l: "forEach (renderToken env options) (tokens line) (st1\<lparr>xpos := MARGIN\<rparr>) = Some st3"
      and e: "st' = advanceY (LINE_HEIGHT options) st3"
      by (auto simp: bind_eq_Some_conv)
    have "logOk st3"
      by (rule forEach_invariant [where I = logOk, OF l s2]) (rule renderToken_logOk [OF _ _ assms(3)])
    with assms(3) show ?thesis by (simp add: e logOk_advanceY)
  qed
qed

lemma renderFile_logOk:
  assumes "renderFile env options file st = Some st'" and "logOk st"
    and "0 \<le> LINE_HEIGHT options"
  shows "logOk st'"
proof -
  let ?sl = "splitTextToSize env (font options, bold, 12) (separatorText file) (contentWidth env)"
  from assms(1) obtain st1 st2 where c: "checkNewPage env options 20 (advanceY 10 st) = Some st1"
    and t: "st2 = st1\<lparr>doc := (doc st1)\<lparr>textColor := defaultTextColor options\<rparr>\<rparr>"
    and l: "forEach (renderLine env options) (lines file)
        (onDoc (setFontSize (fontSize options)) (onDoc (setFont (font options) normal)
          (advanceY (real (length ?sl) * 6 + 4)
            (onDoc (docText (Lines ?sl) MARGIN (ypos st2))
              (onDoc (setFontSize 12) (onDoc (setFont (font options) bold) st2)))))) = Some st'"
      (is "forEach _ _ ?s6 = _")
    by (auto simp: renderFile_def bind_eq_Some_conv Let_def onDocE_Some setTextColor_Some)
  have "logOk (advanceY 10 st)" using assms(2) by (simp add: logOk_advanceY)
  from logOk_checkNewPage [OF c this]
  have "logOk ?s6" by (simp add: t logOk_advanceY)
  show ?thesis
    by (rule forEach_invariant [where I = logOk, OF l \<open>logOk ?s6\<close>])
       (rule renderLine_logOk [OF _ _ assms(3)])
qed

lemma renderTocEntry_logOk:
  assumes "renderTocEntry env options p st = Some st'" and "logOk st"
    and "0 \<le> LINE_HEIGHT options"
  shows "logOk st'"
proof -
  let ?pl = "splitTextToSize env (docFont (doc st)) p (contentWidth env)"
  from assms(1) obtain st1 where
    c: "checkNewPage env options (real (length ?pl) * LINE_HEIGHT options) st = Some st1"
    and e: "st' = advanceY (real (length ?pl) * LINE_HEIGHT options)
        (onDoc (docText (Lines ?pl) MARGIN (ypos st1)) st1)"
    by (auto simp: renderTocEntry_def bind_eq_Some_conv Let_def)
  have h: "0 \<le> real (length ?pl) * LINE_HEIGHT options" using assms(3) by simp
  from logOk_checkNewPage [OF c assms(2)] h show ?thesis
    by (simp add: e logOk_advanceY)
qed

lemma renderTitle_logOk:
  assumes "renderTitle env options data = Some st'"
  shows "logOk st'"
proof -
  let ?init = "\<lparr>doc = newJsPDF, ypos = MARGIN, xpos = MARGIN, ylog = [(0, MARGIN)]\<rparr>"
  let ?tl = "splitTextToSize env (font options, bold, 24) (title data) (contentWidth env)"
  from assms(1) obtain st0 st1 st3 where
    b: "addPageBackground env options ?init = Some st0"
    and t: "st1 = st0\<lparr>doc := (doc st0)\<lparr>textColor := defaultTextColor options\<rparr>\<rparr>"
    and c: "checkNewPage env options (real (length ?tl) * 12)
              (onDoc (setFontSize 24) (onDoc (setFont (font options) bold) st1)) = Some st3"
    and e: "st' = (advanceY (real (length ?tl) * 12 + 10) (onDoc (docText (Lines ?tl) MARGIN (ypos st3)) st3))
              \<lparr>doc := (doc (advanceY (real (length ?tl) * 12 + 10) (onDoc (docText (Lines ?tl) MARGIN (ypos st3)) st3)))
                 \<lparr>textColor := defaultTextColor options\<rparr>\<rparr>"
    by (auto simp: renderTitle_def bind_eq_Some_conv Let_def onDocE_Some setTextColor_Some)
  from addPageBackground_Some [OF b] have "logOk st0"
    by (simp add: logOk_def pageIndex_def newJsPDF_def)
  then have "logOk (onDoc (setFontSize 24) (onDoc (setFont (font options) bold) st1))"
    by (simp add: t)
  from logOk_checkNewPage [OF c this]
  have "logOk (advanceY (real (length ?tl) * 12 + 10) (onDoc (docText (Lines ?tl) MARGIN (ypos st3)) st3))"
    by (simp add: logOk_advanceY)
  moreover have "logOk st' = logOk (advanceY (real (length ?tl) * 12 + 10) (onDoc (docText (Lines ?tl) MARGIN (ypos st3)) st3))"
    unfolding e by (rule logOk_cong) (simp_all add: pageIndex_def)
  ultimately show ?thesis by simp
qed

lemma renderToc_logOk:
  assumes "renderToc env options data st = Some st'" and "logOk st"
    and "0 \<le> LINE_HEIGHT options"
  shows "logOk st'"
proof -
  from assms(1) obtain st1 where c: "checkNewPage env options 20 st = Some st1"
    and l: "forEach (renderTocEntry env options) (tableOfContents data)
        (onDoc (setFontSize (fontSize options)) (onDoc (setFont (font options) normal)
          (advanceY 8 (onDoc (docText (Str ''Table of Contents'') MARGIN (ypos st1))
              (onDoc (setFontSize 16) (onDoc (setFont (font options) bold) st1)))))) = Some st'"
      (is "forEach _ _ ?s5 = _")
    by (auto simp: renderToc_def bind_eq_Some_conv Let_def)
  from logOk_checkNewPage [OF c assms(2)]
  have "logOk ?s5" by (simp add: logOk_advanceY)
  show ?thesis
    by (rule forEach_invariant [where I = logOk, OF l \<open>logOk ?s5\<close>])
       (rule renderTocEntry_logOk [OF _ _ assms(3)])
qed

lemma renderRepo_logOk:
  assumes "renderRepo env data options = Some st" and "0 \<le> LINE_HEIGHT options"
  shows "logOk st"
proof -
  from assms(1) obtain st1 st2 where t: "renderTitle env options data = Some st1"
    and c: "renderToc env options data st1 = Some st2"
    and l: "forEach (renderFile env options) (files data) st2 = Some st"
    by (auto simp: renderRepo_def bind_eq_Some_conv)
  have "logOk st2"
    by (rule renderToc_logOk [OF c renderTitle_logOk [OF t] assms(2)])
  show ?thesis
    by (rule forEach_invariant [where I = logOk, OF l \<open>logOk st2\<close>])
       (rule renderFile_logOk [OF _ _ assms(2)])
qed

section \<open>The sort of the files\<close>

lemma indexOf_ge: "- 1 \<le> indexOf xs v"
  by (induction xs) (auto simp: Let_def)

lemma indexOf_absent: "indexOf xs v = - 1 \<longleftrightarrow> v \<notin> set xs"
proof (induction xs)
  case Nil
  then show ?case by simp
next
  case (Cons x xs)
  from indexOf_ge [of xs v] have "indexOf xs v < 0 \<longleftrightarrow> indexOf xs v = - 1" by arith
  with Cons show ?case by (auto simp: Let_def)
qed

lemma indexOf_nth: "distinct xs \<Longrightarrow> i < length xs \<Longrightarrow> indexOf xs (xs ! i) = int i"
proof (induction xs arbitrary: i)
  case Nil
  then show ?case by simp
next
  case (Cons x xs)
  show ?case
  proof (cases i)
    case 0
    then show ?thesis by simp
  next
    case (Suc j)
    with Cons.prems have j: "j < length xs" and d: "distinct xs" and n: "x \<noteq> xs ! j"
      by auto
    from Cons.IH [OF d j] n Suc show ?thesis by (simp add: Let_def)
  qed
qed

lemma map_indexOf_self: "distinct xs \<Longrightarrow> map (indexOf xs) xs = map int [0..<length xs]"
  by (rule nth_equalityI) (simp_all add: indexOf_nth)

lemma inj_on_indexOf: "inj_on (indexOf xs) (set xs)"
proof (rule inj_onI)
  fix a b
  assume "a \<in> set xs" "b \<in> set xs" "indexOf xs a = indexOf xs b"
  then show "a = b"
  proof (induction xs)
    case Nil
    then show ?case by simp
  next
    case (Cons x xs)
    from indexOf_ge [of xs a] indexOf_ge [of xs b] indexOf_absent [of xs a] indexOf_absent [of xs b]
      Cons show ?case
      by (auto simp: Let_def split: if_splits)
  qed
qed

lemma insertBy_key: "insertBy (\<lambda>a b. k a - k b) x ys = insort_key k x ys"
  by (induction ys) simp_all

lemma arraySort_key: "arraySort (\<lambda>a b. k a - k b) xs = sort_key k xs"
  by (induction xs) (simp_all add: arraySort_def insertBy_key)

lemma sortedHighlightedFiles_sort_key:
  "sortedHighlightedFiles toc hf = sort_key (tocIndex toc) hf"
  unfolding sortedHighlightedFiles_def tocIndex_def by (rule arraySort_key)

lemma insort_key_after:
  "\<forall>y \<in> set as. k y < k x \<Longrightarrow> insort_key k x (as @ bs) = as @ insort_key k x bs"
  by (induction as) auto

lemma sort_key_absent_first:
  fixes k :: "'a \<Rightarrow> int"
  assumes "\<And>x. - 1 \<le> k x"
  shows "sort_key k xs = filter (\<lambda>x. k x = - 1) xs @ sort_key k (filter (\<lambda>x. k x \<noteq> - 1) xs)"
proof (induction xs)
  case Nil
  then show ?case by simp
next
  case (Cons x xs)
  let ?A = "filter (\<lambda>x. k x = - 1) xs" and ?P = "sort_key k (filter (\<lambda>x. k x \<noteq> - 1) xs)"
  show ?case
  proof (cases "k x = - 1")
    case True
    have "insort_key k x (?A @ ?P) = x # ?A @ ?P"
      by (rule insort_is_Cons) (use True assms in auto)
    with True Cons show ?thesis by simp
  next
    case False
    with assms [of x] have "\<forall>y \<in> set ?A. k y < k x" by auto
    from insort_key_after [OF this] False Cons show ?thesis by simp
  qed
qed

lemma sorted_files_absent_first:
  "sortedHighlightedFiles toc hf =
     filter (\<lambda>f. path f \<notin> set toc) hf @ sortedHighlightedFiles toc (filter (\<lambda>f. path f \<in> set toc) hf)"
  using sort_key_absent_first [of "tocIndex toc" hf]
  by (simp add: sortedHighlightedFiles_sort_key tocIndex_def indexOf_ge indexOf_absent)

lemma sorted_by_index_unique:
  assumes "distinct toc" and "distinct ps" and "set ps = set toc"
    and "sorted (map (indexOf toc) ps)"
  shows "ps = toc"
proof -
  have dk: "distinct (map (indexOf toc) ps)"
    using assms(2,3) inj_on_indexOf [of toc] by (simp add: distinct_map)
  have st: "sorted (map (indexOf toc) toc)" and dt: "distinct (map (indexOf toc) toc)"
    using assms(1) by (simp_all add: map_indexOf_self sorted_map distinct_map inj_on_def strict_mono_on_def)
  have "map (indexOf toc) ps = map (indexOf toc) toc"
    by (rule sorted_distinct_set_unique [OF assms(4) dk st dt]) (simp add: assms(3))
  then show ?thesis
    using inj_on_map_eq_map [of "indexOf toc" ps toc] inj_on_indexOf [of toc] assms(3) by simp
qed

lemma sorted_files_permutation:
  assumes "distinct toc" and "mset (map path hf) = mset toc"
  shows "map path (sortedHighlightedFiles toc hf) = toc"
proof -
  let ?out = "map path (sortedHighlightedFiles toc hf)"
  have "mset ?out = image_mset path (mset (sort_key (tocIndex toc) hf))"
    by (simp add: sortedHighlightedFiles_sort_key)
  also have "\<dots> = mset (map path hf)" by simp
  finally have m: "mset ?out = mset toc" using assms(2) by simp
  then have s: "set ?out = set toc" by (rule mset_eq_setD)
  from m assms(1) have d: "distinct ?out" by (metis mset_eq_imp_distinct_iff)
  have "map (indexOf toc) ?out = map (tocIndex toc) (sort_key (tocIndex toc) hf)"
    by (simp add: sortedHighlightedFiles_sort_key tocIndex_def comp_def)
  then have so: "sorted (map (indexOf toc) ?out)" by simp
  show ?thesis by (rule sorted_by_index_unique [OF assms(1) d s so])
qed

lemmas render_defs = renderRepo_def renderTitle_def renderToc_def renderTocEntry_def renderFile_def
  renderLine_def renderToken_def checkNewPage_def addPageBackground_def onDocE_def onDoc_def
  setTextColor_def setFillColor_def setFont_def setFontSize_def docText_def draw_def rect_def
  addPage_def advanceY_def setY_def pageIndex_def newJsPDF_def tokenColor_def hexColorTest_def
  isHexDigit_def defaultTextColor_def isDarkMode_def LINE_HEIGHT_def MARGIN_def contentWidth_def
  DARK_MODE_TEXT_def LIGHT_MODE_TEXT_def DARK_MODE_BACKGROUND_def separatorText_def

section \<open>Where a token is drawn\<close>

lemma LINE_HEIGHT_pos: "0 < fontSize options \<Longrightarrow> 0 < lineSpacing options \<Longrightarrow> 0 < LINE_HEIGHT options"
  by (simp add: LINE_HEIGHT_def)

lemma pageIndex_docText_xpos [simp]:
  "pageIndex ((onDoc (docText t x y) st)\<lparr>xpos := v\<rparr>) = pageIndex st"
  by (simp add: pageIndex_def)

lemma renderToken_placed:
  assumes "renderToken env options token st = Some st'"
  shows "currentPage (doc st') \<noteq> []"
    and "last (currentPage (doc st')) =
           TextOp (Str (tokenText token)) (if wrapsToken env st token then MARGIN else xpos st)
             (ypos st') (tokenColor options (color token)) (docFont (doc st))"
    and "xpos st' = (if wrapsToken env st token then MARGIN else xpos st) + tokenWidthAt env st token"
proof (atomize (full), cases "wrapsToken env st token")
  case True
  from renderToken_wrap [OF assms True] obtain stc where
    c: "checkNewPage env options (LINE_HEIGHT options)
          (advanceY (LINE_HEIGHT options) (colored options token st)) = Some stc"
    and e: "st' = (onDoc (docText (Str (tokenText token)) MARGIN (ypos stc)) (stc\<lparr>xpos := MARGIN\<rparr>))
                 \<lparr>xpos := MARGIN + tokenWidthAt env st token\<rparr>"
    by blast
  from checkNewPage_font [OF c] True
  show "currentPage (doc st') \<noteq> [] \<and>
    last (currentPage (doc st')) =
           TextOp (Str (tokenText token)) (if wrapsToken env st token then MARGIN else xpos st)
             (ypos st') (tokenColor options (color token)) (docFont (doc st)) \<and>
    xpos st' = (if wrapsToken env st token then MARGIN else xpos st) + tokenWidthAt env st token"
    by (simp add: e)
next
  case False
  from renderToken_nowrap [OF assms False] False
  show "currentPage (doc st') \<noteq> [] \<and>
    last (currentPage (doc st')) =
           TextOp (Str (tokenText token)) (if wrapsToken env st token then MARGIN else xpos st)
             (ypos st') (tokenColor options (color token)) (docFont (doc st)) \<and>
    xpos st' = (if wrapsToken env st token then MARGIN else xpos st) + tokenWidthAt env st token"
    by simp
qed

lemma renderToken_row:
  assumes "renderToken env options token st = Some st'"
  shows "wrapsToken env st token \<Longrightarrow>
           (pageIndex st' = pageIndex st \<and> ypos st' = ypos st + LINE_HEIGHT options)
           \<or> (pageIndex st' = Suc (pageIndex st) \<and> ypos st' = MARGIN)"
    and "\<not> wrapsToken env st token \<Longrightarrow> pageIndex st' = pageIndex st \<and> ypos st' = ypos st"
proof -
  assume w: "wrapsToken env st token"
  from renderToken_wrap [OF assms w] obtain stc where
    c: "checkNewPage env options (LINE_HEIGHT options)
          (advanceY (LINE_HEIGHT options) (colored options token st)) = Some stc"
    and e: "st' = (onDoc (docText (Str (tokenText token)) MARGIN (ypos stc)) (stc\<lparr>xpos := MARGIN\<rparr>))
                 \<lparr>xpos := MARGIN + tokenWidthAt env st token\<rparr>"
    by blast
  let ?s = "advanceY (LINE_HEIGHT options) (colored options token st)"
  show "(pageIndex st' = pageIndex st \<and> ypos st' = ypos st + LINE_HEIGHT options)
           \<or> (pageIndex st' = Suc (pageIndex st) \<and> ypos st' = MARGIN)"
  proof (cases "ypos ?s + LINE_HEIGHT options > pageHeight env - MARGIN")
    case True
    from checkNewPage_break(1,5) [OF c True] show ?thesis
      by (simp add: e pageIndex_def)
  next
    case False
    with c have "stc = ?s" by (simp add: checkNewPage_keep)
    then show ?thesis by (simp add: e)
  qed
next
  assume "\<not> wrapsToken env st token"
  from renderToken_nowrap [OF assms this]
  show "pageIndex st' = pageIndex st \<and> ypos st' = ypos st" by simp
qed

text \<open>
  C1. A token is moved to a new visual row, that is, its run is drawn on another page or
  at another vertical position than the cursor had, exactly when the horizontal position
  is strictly right of the left margin and the position plus the measured width of the
  token is strictly greater than \<open>pageWidth - MARGIN\<close>. A moved token is drawn at the
  left margin, any other token at the horizontal position of the cursor. A token that
  exactly fills the remaining width stays on the row, and so does a token met at the
  left margin, which is drawn there.
\<close>

theorem token_wrap_rule:
  assumes "renderToken env options token st = Some st'"
    and "0 < fontSize options" and "0 < lineSpacing options"
  shows "((pageIndex st', ypos st') \<noteq> (pageIndex st, ypos st) \<longleftrightarrow>
            xpos st > MARGIN \<and> xpos st + tokenWidthAt env st token > pageWidth env - MARGIN)
       \<and> last (currentPage (doc st')) =
            TextOp (Str (tokenText token))
              (if xpos st > MARGIN \<and> xpos st + tokenWidthAt env st token > pageWidth env - MARGIN
               then MARGIN else xpos st)
              (ypos st') (tokenColor options (color token)) (docFont (doc st))
       \<and> (xpos st + tokenWidthAt env st token = pageWidth env - MARGIN \<longrightarrow>
            (pageIndex st', ypos st') = (pageIndex st, ypos st))
       \<and> (xpos st = MARGIN \<longrightarrow>
            (pageIndex st', ypos st') = (pageIndex st, ypos st)
            \<and> last (currentPage (doc st')) =
                 TextOp (Str (tokenText token)) MARGIN (ypos st)
                   (tokenColor options (color token)) (docFont (doc st)))"
proof -
  from LINE_HEIGHT_pos [OF assms(2,3)] have lh: "0 < LINE_HEIGHT options" .
  note p = renderToken_placed(2) [OF assms(1)]
  show ?thesis
  proof (cases "wrapsToken env st token")
    case True
    from renderToken_row(1) [OF assms(1) True] lh
    have "(pageIndex st', ypos st') \<noteq> (pageIndex st, ypos st)" by auto
    with True p show ?thesis by (auto simp: wrapsToken_def)
  next
    case False
    from renderToken_row(2) [OF assms(1) False]
    have "(pageIndex st', ypos st') = (pageIndex st, ypos st)" by simp
    with False p show ?thesis by (auto simp: wrapsToken_def)
  qed
qed

lemmas ex_defs = exEnv_def exOptions_def exData_def exLine_def exCursor_def exToken_def

theorem token_wrap_rule_witness:
  "(\<exists>st'. renderToken exEnv exOptions exToken (exCursor 200) = Some st'
      \<and> 0 < fontSize exOptions \<and> 0 < lineSpacing exOptions
      \<and> xpos (exCursor 200) > MARGIN
      \<and> xpos (exCursor 200) + tokenWidthAt exEnv (exCursor 200) exToken > pageWidth exEnv - MARGIN
      \<and> (pageIndex st', ypos st') \<noteq> (pageIndex (exCursor 200), ypos (exCursor 200))
      \<and> last (currentPage (doc st')) = TextOp (Str ''const'') 15 (ypos st') ''#800080'' (Courier, normal, 9))
   \<and> (\<exists>st'. renderToken exEnv exOptions exToken (exCursor 185) = Some st'
      \<and> xpos (exCursor 185) + tokenWidthAt exEnv (exCursor 185) exToken = pageWidth exEnv - MARGIN
      \<and> (pageIndex st', ypos st') = (pageIndex (exCursor 185), ypos (exCursor 185))
      \<and> last (currentPage (doc st')) = TextOp (Str ''const'') 185 15 ''#800080'' (Courier, normal, 9))
   \<and> (\<exists>st'. renderToken exEnv exOptions exToken (exCursor 15) = Some st'
      \<and> xpos (exCursor 15) = MARGIN
      \<and> (pageIndex st', ypos st') = (pageIndex (exCursor 15), ypos (exCursor 15))
      \<and> last (currentPage (doc st')) = TextOp (Str ''const'') 15 15 ''#800080'' (Courier, normal, 9))"
proof -
  have f: "0 < fontSize exOptions" and l: "0 < lineSpacing exOptions"
    by (simp_all add: exOptions_def)
  have v: "tokenColor exOptions (color exToken) = ''#800080''" "tokenText exToken = ''const''"
    "docFont (doc (exCursor x)) = (Courier, normal, 9)" "xpos (exCursor x) = x"
    "ypos (exCursor x) = 15" "MARGIN = 15" "pageWidth exEnv = 210"
    "tokenWidthAt exEnv (exCursor x) exToken = 10" for x
    by (simp_all add: render_defs ex_defs tokenWidthAt_def)
  obtain sa where a: "renderToken exEnv exOptions exToken (exCursor 200) = Some sa"
    by (simp add: render_defs ex_defs Let_def)
  obtain sb where b: "renderToken exEnv exOptions exToken (exCursor 185) = Some sb"
    by (simp add: render_defs ex_defs Let_def)
  obtain sc where c: "renderToken exEnv exOptions exToken (exCursor 15) = Some sc"
    by (simp add: render_defs ex_defs Let_def)
  have "\<exists>st'. renderToken exEnv exOptions exToken (exCursor 200) = Some st'
      \<and> 0 < fontSize exOptions \<and> 0 < lineSpacing exOptions
      \<and> xpos (exCursor 200) > MARGIN
      \<and> xpos (exCursor 200) + tokenWidthAt exEnv (exCursor 200) exToken > pageWidth exEnv - MARGIN
      \<and> (pageIndex st', ypos st') \<noteq> (pageIndex (exCursor 200), ypos (exCursor 200))
      \<and> last (currentPage (doc st')) = TextOp (Str ''const'') 15 (ypos st') ''#800080'' (Courier, normal, 9)"
    using token_wrap_rule [OF a f l] a f l unfolding v by (intro exI [of _ sa]) simp
  moreover have "\<exists>st'. renderToken exEnv exOptions exToken (exCursor 185) = Some st'
      \<and> xpos (exCursor 185) + tokenWidthAt exEnv (exCursor 185) exToken = pageWidth exEnv - MARGIN
      \<and> (pageIndex st', ypos st') = (pageIndex (exCursor 185), ypos (exCursor 185))
      \<and> last (currentPage (doc st')) = TextOp (Str ''const'') 185 15 ''#800080'' (Courier, normal, 9)"
    using token_wrap_rule [OF b f l] b unfolding v by (intro exI [of _ sb]) simp
  moreover have "\<exists>st'. renderToken exEnv exOptions exToken (exCursor 15) = Some st'
      \<and> xpos (exCursor 15) = MARGIN
      \<and> (pageIndex st', ypos st') = (pageIndex (exCursor 15), ypos (exCursor 15))
      \<and> last (currentPage (doc st')) = TextOp (Str ''const'') 15 15 ''#800080'' (Courier, normal, 9)"
    using token_wrap_rule [OF c f l] c unfolding v by (intro exI [of _ sc]) simp
  ultimately show ?thesis by blast
qed

section \<open>Tokens are drawn whole\<close>

text \<open>
  C2. Every token is drawn by one call of \<open>doc.text\<close> with its whole text: the text runs
  of the finished document are the title, the heading and entries of the table of
  contents and then, file after file, the separator followed by one run per token, in
  source order, each carrying the unbroken text of its token. A token wider than the
  content width, met at or right of the left margin, is drawn whole at the left margin,
  and the horizontal position then lies beyond the right margin.
\<close>

theorem tokens_placed_whole:
  "(renderRepo env data options = Some st \<longrightarrow>
      texts (doc st) = titleTexts env options data @ tocTexts env options data
        @ concat (map (fileTexts env options) (files data)))
   \<and> (renderToken env options token s = Some s' \<longrightarrow>
        texts (doc s') = texts (doc s) @ [Str (tokenText token)])
   \<and> (renderToken env options token s = Some s' \<and> MARGIN \<le> xpos s
        \<and> contentWidth env < tokenWidthAt env s token \<longrightarrow>
        last (currentPage (doc s')) =
          TextOp (Str (tokenText token)) MARGIN (ypos s') (tokenColor options (color token))
            (docFont (doc s))
        \<and> pageWidth env - MARGIN < xpos s')"
proof (intro conjI impI)
  assume "renderRepo env data options = Some st"
  then show "texts (doc st) = titleTexts env options data @ tocTexts env options data
        @ concat (map (fileTexts env options) (files data))"
    by (rule renderRepo_texts)
next
  assume "renderToken env options token s = Some s'"
  then show "texts (doc s') = texts (doc s) @ [Str (tokenText token)]"
    by (rule renderToken_texts)
next
  assume a: "renderToken env options token s = Some s' \<and> MARGIN \<le> xpos s
        \<and> contentWidth env < tokenWidthAt env s token"
  then have r: "renderToken env options token s = Some s'" by simp
  from a have "(if wrapsToken env s token then MARGIN else xpos s) = MARGIN"
    by (auto simp: wrapsToken_def contentWidth_def)
  with renderToken_placed(2,3) [OF r] a
  show "last (currentPage (doc s')) =
          TextOp (Str (tokenText token)) MARGIN (ypos s') (tokenColor options (color token))
            (docFont (doc s))"
    and "pageWidth env - MARGIN < xpos s'"
    by (simp_all add: contentWidth_def)
qed

theorem tokens_placed_whole_witness:
  "(\<exists>st. renderRepo exEnv exData exOptions = Some st
      \<and> texts (doc st) = [Lines [''Code Documentation for demo''], Str ''Table of Contents'',
           Lines [''x.ts''], Lines [''File: x.ts (typescript)''],
           Str ''const'', Str '' '', Str ''a''])
   \<and> (\<exists>s'. renderToken exEnv exOptions exWideToken (exCursor 15) = Some s'
      \<and> MARGIN \<le> xpos (exCursor 15)
      \<and> contentWidth exEnv < tokenWidthAt exEnv (exCursor 15) exWideToken
      \<and> texts (doc s') = [Str (replicate 100 CHR ''x'')]
      \<and> last (currentPage (doc s')) =
           TextOp (Str (replicate 100 CHR ''x'')) 15 15 ''#000000'' (Courier, normal, 9)
      \<and> pageWidth exEnv - MARGIN < xpos s')"
proof -
  obtain st where a: "renderRepo exEnv exData exOptions = Some st"
    by (simp add: render_defs ex_defs Let_def)
  obtain s' where b: "renderToken exEnv exOptions exWideToken (exCursor 15) = Some s'"
    by (simp add: render_defs ex_defs exWideToken_def Let_def)
  have v: "MARGIN \<le> xpos (exCursor 15)"
    "contentWidth exEnv < tokenWidthAt exEnv (exCursor 15) exWideToken"
    by (simp_all add: render_defs ex_defs exWideToken_def tokenWidthAt_def)
  have w: "titleTexts exEnv exOptions exData @ tocTexts exEnv exOptions exData
      @ concat (map (fileTexts exEnv exOptions) (files exData))
      = [Lines [''Code Documentation for demo''], Str ''Table of Contents'',
           Lines [''x.ts''], Lines [''File: x.ts (typescript)''],
           Str ''const'', Str '' '', Str ''a'']"
    "texts (doc (exCursor 15)) = []" "tokenText exWideToken = replicate 100 CHR ''x''"
    "tokenColor exOptions (color exWideToken) = ''#000000''"
    "docFont (doc (exCursor 15)) = (Courier, normal, 9)" "MARGIN = 15"
    by (simp_all add: render_defs ex_defs exWideToken_def titleTexts_def tocTexts_def fileTexts_def
        lineTexts_def texts_def allOps_def)
  have "\<exists>st. renderRepo exEnv exData exOptions = Some st
      \<and> texts (doc st) = [Lines [''Code Documentation for demo''], Str ''Table of Contents'',
           Lines [''x.ts''], Lines [''File: x.ts (typescript)''],
           Str ''const'', Str '' '', Str ''a'']"
    using tokens_placed_whole [of exEnv exData exOptions st] a unfolding w
    by (intro exI [of _ st]) simp
  moreover have "\<exists>s'. renderToken exEnv exOptions exWideToken (exCursor 15) = Some s'
      \<and> MARGIN \<le> xpos (exCursor 15)
      \<and> contentWidth exEnv < tokenWidthAt exEnv (exCursor 15) exWideToken
      \<and> texts (doc s') = [Str (replicate 100 CHR ''x'')]
      \<and> last (currentPage (doc s')) =
           TextOp (Str (replicate 100 CHR ''x'')) 15 15 ''#000000'' (Courier, normal, 9)
      \<and> pageWidth exEnv - MARGIN < xpos s'"
  proof -
    from renderToken_row(2) [OF b] v have "ypos s' = 15"
      by (simp add: wrapsToken_def render_defs ex_defs)
    with tokens_placed_whole [of exEnv exData exOptions st exWideToken "exCursor 15" s'] b v
    show ?thesis unfolding w by (intro exI [of _ s']) simp
  qed
  ultimately show ?thesis by blast
qed

section \<open>The colour of a token\<close>

text \<open>
  C5. The colour a token is drawn in: a string that is not a well-formed six-digit
  hexadecimal colour gives the default text colour of the theme; under the dark theme
  \<open>#000000\<close> and \<open>black\<close> give the light foreground \<open>#E2E8F0\<close>; under the light theme
  \<open>#FFFFFF\<close> and \<open>white\<close> give \<open>#000000\<close>; every other well-formed colour is kept. The
  run of the token carries that colour.
\<close>

theorem token_color_rule:
  "(\<not> hexColorTest c \<longrightarrow> tokenColor options c = defaultTextColor options)
   \<and> (theme options = dark \<and> (c = ''#000000'' \<or> c = ''black'') \<longrightarrow>
        tokenColor options c = DARK_MODE_TEXT)
   \<and> (theme options = light \<and> (c = ''#FFFFFF'' \<or> c = ''white'') \<longrightarrow>
        tokenColor options c = LIGHT_MODE_TEXT)
   \<and> (hexColorTest c \<and> \<not> (theme options = dark \<and> c = ''#000000'')
        \<and> \<not> (theme options = light \<and> c = ''#FFFFFF'') \<longrightarrow> tokenColor options c = c)
   \<and> (renderToken env options token st = Some st' \<longrightarrow>
        last (currentPage (doc st')) =
          TextOp (Str (tokenText token)) (if wrapsToken env st token then MARGIN else xpos st)
            (ypos st') (tokenColor options (color token)) (docFont (doc st)))
   \<and> defaultTextColor options = (if theme options = dark then DARK_MODE_TEXT else LIGHT_MODE_TEXT)
   \<and> DARK_MODE_TEXT = ''#E2E8F0'' \<and> LIGHT_MODE_TEXT = ''#000000''"
proof -
  have t: "theme options = light \<longleftrightarrow> theme options \<noteq> dark" by (cases "theme options") simp_all
  have "\<not> hexColorTest ''black''" "\<not> hexColorTest ''white''"
    by (simp_all add: hexColorTest_def)
  then show ?thesis
    using renderToken_placed(2) [of env options token st st']
    by (auto simp: tokenColor_def Let_def isDarkMode_def defaultTextColor_def t
        DARK_MODE_TEXT_def LIGHT_MODE_TEXT_def)
qed

theorem token_color_rule_witness:
  "\<not> hexColorTest ''fuchsia'' \<and> tokenColor exOptions ''fuchsia'' = ''#000000''
   \<and> tokenColor exDarkOptions ''fuchsia'' = ''#E2E8F0''
   \<and> theme exDarkOptions = dark \<and> tokenColor exDarkOptions ''#000000'' = ''#E2E8F0''
   \<and> tokenColor exDarkOptions ''black'' = ''#E2E8F0''
   \<and> theme exOptions = light \<and> tokenColor exOptions ''#FFFFFF'' = ''#000000''
   \<and> tokenColor exOptions ''white'' = ''#000000''
   \<and> hexColorTest ''#800080'' \<and> tokenColor exOptions ''#800080'' = ''#800080''
   \<and> tokenColor exDarkOptions ''#800080'' = ''#800080''
   \<and> (\<exists>st'. renderToken exEnv exOptions exToken (exCursor 15) = Some st'
        \<and> last (currentPage (doc st')) = TextOp (Str ''const'') 15 15 ''#800080'' (Courier, normal, 9))"
proof -
  have h: "\<not> hexColorTest ''fuchsia''" "hexColorTest ''#800080''"
    "theme exDarkOptions = dark" "theme exOptions = light"
    by (simp_all add: hexColorTest_def isHexDigit_def exDarkOptions_def exOptions_def)
  obtain st' where r: "renderToken exEnv exOptions exToken (exCursor 15) = Some st'"
    by (simp add: render_defs ex_defs Let_def)
  have v: "\<not> wrapsToken exEnv (exCursor 15) exToken" "xpos (exCursor 15) = 15"
    "tokenText exToken = ''const''" "color exToken = ''#800080''"
    "docFont (doc (exCursor 15)) = (Courier, normal, 9)"
    by (simp_all add: wrapsToken_def render_defs ex_defs)
  from renderToken_row(2) [OF r v(1)] have y: "ypos st' = 15" by (simp add: exCursor_def)
  have "\<exists>st'. renderToken exEnv exOptions exToken (exCursor 15) = Some st'
        \<and> last (currentPage (doc st')) = TextOp (Str ''const'') 15 15 ''#800080'' (Courier, normal, 9)"
    using token_color_rule [of "''#800080''" exOptions exEnv exToken "exCursor 15" st'] r h
    by (intro exI [of _ st']) (simp add: v y)
  then show ?thesis
    using token_color_rule [of "''fuchsia''" exOptions] token_color_rule [of "''fuchsia''" exDarkOptions]
      token_color_rule [of "''#000000''" exDarkOptions] token_color_rule [of "''black''" exDarkOptions]
      token_color_rule [of "''#FFFFFF''" exOptions] token_color_rule [of "''white''" exOptions]
      token_color_rule [of "''#800080''" exOptions] token_color_rule [of "''#800080''" exDarkOptions] h
    by simp
qed

section \<open>The end of a line\<close>

lemma forEach_renderToken_last:
  assumes "forEach (renderToken env options) ts s = Some s'" and "ts \<noteq> []"
  shows "\<exists>x c f. last (currentPage (doc s')) = TextOp (Str (tokenText (last ts))) x (ypos s') c f"
proof -
  from assms(2) have "ts = butlast ts @ [last ts]" by simp
  with assms(1) have "forEach (renderToken env options) (butlast ts @ [last ts]) s = Some s'"
    by simp
  then obtain t where "renderToken env options (last ts) t = Some s'"
    by (auto simp: forEach_append split: option.splits)
  from renderToken_placed(2) [OF this] show ?thesis by blast
qed

lemma renderLine_Some:
  assumes "renderLine env options line st = Some st'"
  shows "\<exists>s1 s3. checkNewPage env options (LINE_HEIGHT options) st = Some s1
           \<and> forEach (renderToken env options) (tokens line) (s1\<lparr>xpos := MARGIN\<rparr>) = Some s3
           \<and> st' = advanceY (LINE_HEIGHT options) s3"
  using assms
  by (cases "tokens line") (auto simp: renderLine_def bind_eq_Some_conv Let_def)

text \<open>
  C6. A logical line ends one line height below the vertical position at which its token
  loop ended, hence one line height below the row of its last token. A line without
  tokens draws no text and moves the vertical position by exactly one line height from
  where the page check of the line left it: the position before the line, or the top
  margin of a new page.
\<close>

theorem line_advance:
  assumes "renderLine env options line st = Some st'"
  shows "(\<exists>s1 s3. checkNewPage env options (LINE_HEIGHT options) st = Some s1
            \<and> forEach (renderToken env options) (tokens line) (s1\<lparr>xpos := MARGIN\<rparr>) = Some s3
            \<and> ypos st' = ypos s3 + LINE_HEIGHT options \<and> doc st' = doc s3)
       \<and> texts (doc st') = texts (doc st) @ lineTexts line
       \<and> (tokens line \<noteq> [] \<longrightarrow>
            (\<exists>x y c f. last (currentPage (doc st')) = TextOp (Str (tokenText (last (tokens line)))) x y c f
               \<and> ypos st' = y + LINE_HEIGHT options))
       \<and> (tokens line = [] \<longrightarrow>
            texts (doc st') = texts (doc st)
            \<and> ypos st' = (if ypos st + LINE_HEIGHT options > pageHeight env - MARGIN
                          then MARGIN else ypos st) + LINE_HEIGHT options)"
proof -
  from renderLine_Some [OF assms] obtain s1 s3 where
    c: "checkNewPage env options (LINE_HEIGHT options) st = Some s1"
    and l: "forEach (renderToken env options) (tokens line) (s1\<lparr>xpos := MARGIN\<rparr>) = Some s3"
    and e: "st' = advanceY (LINE_HEIGHT options) s3"
    by blast
  have t: "texts (doc st') = texts (doc st) @ lineTexts line"
    using renderLine_texts [OF assms] by (simp add: lineTexts_def)
  have n: "\<exists>x y c f. last (currentPage (doc st')) = TextOp (Str (tokenText (last (tokens line)))) x y c f
               \<and> ypos st' = y + LINE_HEIGHT options" if "tokens line \<noteq> []"
    using forEach_renderToken_last [OF l that] by (auto simp: e)
  have y1: "ypos s1 = (if ypos st + LINE_HEIGHT options > pageHeight env - MARGIN
                          then MARGIN else ypos st)"
  proof (cases "ypos st + LINE_HEIGHT options > pageHeight env - MARGIN")
    case True
    from checkNewPage_break(5) [OF c True] True show ?thesis by simp
  next
    case False
    with c show ?thesis by (simp add: checkNewPage_keep)
  qed
  have z: "texts (doc st') = texts (doc st)
            \<and> ypos st' = (if ypos st + LINE_HEIGHT options > pageHeight env - MARGIN
                          then MARGIN else ypos st) + LINE_HEIGHT options" if "tokens line = []"
    using that l t y1 by (auto simp: e lineTexts_def)
  from c l e t n z show ?thesis by auto
qed

theorem line_advance_witness:
  "(\<exists>st'. renderLine exEnv exOptions exLine (exCursor 15) = Some st'
      \<and> tokens exLine \<noteq> []
      \<and> texts (doc st') = [Str ''const'', Str '' '', Str ''a'']
      \<and> (\<exists>x y c f. last (currentPage (doc st')) = TextOp (Str ''a'') x y c f
            \<and> ypos st' = y + LINE_HEIGHT exOptions))
   \<and> (\<exists>st'. renderLine exEnv exOptions exBlankLine (exCursor 15) = Some st'
      \<and> tokens exBlankLine = []
      \<and> texts (doc st') = []
      \<and> ypos st' = 15 + LINE_HEIGHT exOptions)"
proof -
  obtain sa where a: "renderLine exEnv exOptions exLine (exCursor 15) = Some sa"
    by (simp add: render_defs ex_defs Let_def)
  obtain sb where b: "renderLine exEnv exOptions exBlankLine (exCursor 15) = Some sb"
    by (simp add: render_defs ex_defs exBlankLine_def Let_def)
  have v: "tokens exLine \<noteq> []" "tokens exBlankLine = []" "texts (doc (exCursor 15)) = []"
    "lineTexts exLine = [Str ''const'', Str '' '', Str ''a'']" "lineTexts exBlankLine = []"
    "tokenText (last (tokens exLine)) = ''a''" "ypos (exCursor 15) = 15"
    "\<not> 15 + LINE_HEIGHT exOptions > pageHeight exEnv - MARGIN"
    by (simp_all add: render_defs ex_defs exBlankLine_def lineTexts_def texts_def allOps_def)
  have "\<exists>st'. renderLine exEnv exOptions exLine (exCursor 15) = Some st'
      \<and> tokens exLine \<noteq> []
      \<and> texts (doc st') = [Str ''const'', Str '' '', Str ''a'']
      \<and> (\<exists>x y c f. last (currentPage (doc st')) = TextOp (Str ''a'') x y c f
            \<and> ypos st' = y + LINE_HEIGHT exOptions)"
    using line_advance [OF a] a v by (intro exI [of _ sa]) simp
  moreover have "\<exists>st'. renderLine exEnv exOptions exBlankLine (exCursor 15) = Some st'
      \<and> tokens exBlankLine = []
      \<and> texts (doc st') = []
      \<and> ypos st' = 15 + LINE_HEIGHT exOptions"
    using line_advance [OF b] b v by (intro exI [of _ sb]) simp
  ultimately show ?thesis by blast
qed

section \<open>Closed pages are kept\<close>

lemma pagesKept_refl [simp]: "pagesKept s s"
  by (simp add: pagesKept_def)

lemma pagesKept_trans: "pagesKept s t \<Longrightarrow> pagesKept t u \<Longrightarrow> pagesKept s u"
  unfolding pagesKept_def by (meson prefix_order.trans)

lemma pagesKept_docText: "pagesKept s t \<Longrightarrow> pagesKept s (onDoc (docText a x y) t)"
  by (simp add: pagesKept_def)

lemma pagesKept_simps [simp]:
  "pagesKept s (onDoc (setFont n z) t) = pagesKept s t"
  "pagesKept s (onDoc (setFontSize v) t) = pagesKept s t"
  "pagesKept s (advanceY v t) = pagesKept s t"
  "pagesKept s (t\<lparr>xpos := v\<rparr>) = pagesKept s t"
  "pagesKept s (colored options token t) = pagesKept s t"
  "pagesKept s (t\<lparr>doc := (doc t)\<lparr>textColor := c\<rparr>\<rparr>) = pagesKept s t"
  by (simp_all add: pagesKept_def allOps_def colored_def)

lemma checkNewPage_pagesKept:
  assumes "checkNewPage env options h t = Some t'" and "pagesKept s t"
  shows "pagesKept s t'"
proof (cases "ypos t + h > pageHeight env - MARGIN")
  case True
  from checkNewPage_break(1) [OF assms(1) True] checkNewPage_allOps [OF assms(1)] True
  have "pagesKept t t'" by (simp add: pagesKept_def)
  with assms(2) show ?thesis by (rule pagesKept_trans)
next
  case False
  with assms show ?thesis by (simp add: checkNewPage_keep)
qed

lemma renderToken_pagesKept:
  assumes "renderToken env options token t = Some t'" and "pagesKept s t"
  shows "pagesKept s t'"
proof (cases "wrapsToken env t token")
  case True
  from renderToken_wrap [OF assms(1) True] obtain stc where
    c: "checkNewPage env options (LINE_HEIGHT options)
          (advanceY (LINE_HEIGHT options) (colored options token t)) = Some stc"
    and e: "t' = (onDoc (docText (Str (tokenText token)) MARGIN (ypos stc)) (stc\<lparr>xpos := MARGIN\<rparr>))
                 \<lparr>xpos := MARGIN + tokenWidthAt env t token\<rparr>"
    by blast
  have "pagesKept s stc" by (rule checkNewPage_pagesKept [OF c]) (simp add: assms(2))
  then show ?thesis unfolding e by (simp add: pagesKept_docText)
next
  case False
  from renderToken_nowrap [OF assms(1) False] assms(2) show ?thesis
    by (simp add: pagesKept_docText)
qed

lemma renderLine_pagesKept:
  assumes "renderLine env options line t = Some t'" and "pagesKept s t"
  shows "pagesKept s t'"
proof -
  from renderLine_Some [OF assms(1)] obtain s1 s3 where
    c: "checkNewPage env options (LINE_HEIGHT options) t = Some s1"
    and l: "forEach (renderToken env options) (tokens line) (s1\<lparr>xpos := MARGIN\<rparr>) = Some s3"
    and e: "t' = advanceY (LINE_HEIGHT options) s3"
    by blast
  from checkNewPage_pagesKept [OF c assms(2)] have s2: "pagesKept s (s1\<lparr>xpos := MARGIN\<rparr>)"
    by simp
  have "pagesKept s s3"
    by (rule forEach_invariant [where I = "pagesKept s", OF l s2]) (rule renderToken_pagesKept)
  then show ?thesis by (simp add: e)
qed

lemma renderFile_pagesKept:
  assumes "renderFile env options file t = Some t'" and "pagesKept s t"
  shows "pagesKept s t'"
proof -
  let ?sl = "splitTextToSize env (font options, bold, 12) (separatorText file) (contentWidth env)"
  from assms(1) obtain st1 st2 where c: "checkNewPage env options 20 (advanceY 10 t) = Some st1"
    and t: "st2 = st1\<lparr>doc := (doc st1)\<lparr>textColor := defaultTextColor options\<rparr>\<rparr>"
    and l: "forEach (renderLine env options) (lines file)
        (onDoc (setFontSize (fontSize options)) (onDoc (setFont (font options) normal)
          (advanceY (real (length ?sl) * 6 + 4)
            (onDoc (docText (Lines ?sl) MARGIN (ypos st2))
              (onDoc (setFontSize 12) (onDoc (setFont (font options) bold) st2)))))) = Some t'"
      (is "forEach _ _ ?s6 = _")
    by (auto simp: renderFile_def bind_eq_Some_conv Let_def onDocE_Some setTextColor_Some)
  have "pagesKept s st1" by (rule checkNewPage_pagesKept [OF c]) (simp add: assms(2))
  then have "pagesKept s ?s6" by (simp add: t pagesKept_docText)
  show ?thesis
    by (rule forEach_invariant [where I = "pagesKept s", OF l \<open>pagesKept s ?s6\<close>])
       (rule renderLine_pagesKept)
qed

lemma renderTocEntry_pagesKept:
  assumes "renderTocEntry env options p t = Some t'" and "pagesKept s t"
  shows "pagesKept s t'"
proof -
  let ?pl = "splitTextToSize env (docFont (doc t)) p (contentWidth env)"
  from assms(1) obtain st1 where
    c: "checkNewPage env options (real (length ?pl) * LINE_HEIGHT options) t = Some st1"
    and e: "t' = advanceY (real (length ?pl) * LINE_HEIGHT options)
        (onDoc (docText (Lines ?pl) MARGIN (ypos st1)) st1)"
    by (auto simp: renderTocEntry_def bind_eq_Some_conv Let_def)
  from checkNewPage_pagesKept [OF c assms(2)] show ?thesis
    by (simp add: e pagesKept_docText)
qed

lemma renderToc_pagesKept:
  assumes "renderToc env options data t = Some t'" and "pagesKept s t"
  shows "pagesKept s t'"
proof -
  from assms(1) obtain st1 where c: "checkNewPage env options 20 t = Some st1"
    and l: "forEach (renderTocEntry env options) (tableOfContents data)
        (onDoc (setFontSize (fontSize options)) (onDoc (setFont (font options) normal)
          (advanceY 8 (onDoc (docText (Str ''Table of Contents'') MARGIN (ypos st1))
              (onDoc (setFontSize 16) (onDoc (setFont (font options) bold) st1)))))) = Some t'"
      (is "forEach _ _ ?s5 = _")
    by (auto simp: renderToc_def bind_eq_Some_conv Let_def)
  from checkNewPage_pagesKept [OF c assms(2)]
  have "pagesKept s ?s5" by (simp add: pagesKept_docText)
  show ?thesis
    by (rule forEach_invariant [where I = "pagesKept s", OF l \<open>pagesKept s ?s5\<close>])
       (rule renderTocEntry_pagesKept)
qed

lemmas ex_defs2 = exBigOptions_def exLongData_def exEmptyData_def exBlankLine_def exDarkOptions_def

section \<open>The page bound\<close>

lemma checkNewPage_cases:
  assumes "checkNewPage env options h s = Some s'"
  shows "if ypos s + h > pageHeight env - MARGIN
         then closedPages (doc s') = closedPages (doc s) @ [currentPage (doc s)]
            \<and> currentPage (doc s') = pageBackground env options \<and> ypos s' = MARGIN
         else s' = s"
proof (cases "ypos s + h > pageHeight env - MARGIN")
  case True
  from checkNewPage_break(1,2,5) [OF assms True] True show ?thesis by simp
next
  case False
  with assms show ?thesis by (simp add: checkNewPage_keep)
qed



section \<open>A document without files\<close>

text \<open>
  C8. With no files, and a library that accepts the six-digit hexadecimal colours, the
  renderer returns the serialized document, whose text runs are the title block, the
  heading of the table of contents and its entries, and nothing else.
\<close>

theorem empty_files_render:
  assumes "colorsAccepted env" and "files data = []"
  shows "\<exists>st. renderRepo env data options = Some st
           \<and> generateRepoPdf env repoName data options = Some (docOutput env (doc st))
           \<and> texts (doc st) = titleTexts env options data @ tocTexts env options data"
proof -
  from renderRepo_total [OF assms(1)] obtain st where r: "renderRepo env data options = Some st"
    by blast
  from renderRepo_texts [OF r] assms(2)
  have "texts (doc st) = titleTexts env options data @ tocTexts env options data" by simp
  with r show ?thesis by (simp add: generateRepoPdf_def)
qed

theorem empty_files_render_witness:
  "colorsAccepted exEnv \<and> files exEmptyData = []
   \<and> (\<exists>st. renderRepo exEnv exEmptyData exOptions = Some st
        \<and> generateRepoPdf exEnv ''demo'' exEmptyData exOptions = Some ''%PDF''
        \<and> texts (doc st) = [Lines [''Code Documentation for demo''], Str ''Table of Contents'',
             Lines [''x.ts'']])"
proof -
  have h: "colorsAccepted exEnv" "files exEmptyData = []"
    by (simp_all add: colorsAccepted_def exEnv_def exEmptyData_def)
  have v: "titleTexts exEnv exOptions exEmptyData @ tocTexts exEnv exOptions exEmptyData
      = [Lines [''Code Documentation for demo''], Str ''Table of Contents'', Lines [''x.ts'']]"
    "docOutput exEnv d = ''%PDF''" for d
    by (simp_all add: titleTexts_def tocTexts_def exEnv_def exEmptyData_def exOptions_def)
  from empty_files_render [OF h, of exOptions "''demo''"] h show ?thesis
    unfolding v by simp
qed

section \<open>The cursor only moves forward\<close>

text \<open>
  C9. With a positive font size and line spacing, the successive assignments to \<open>y\<close>,
  each taken with the index of the page that is current when it is made, start at the
  top margin of the first page and end at the final cursor; from one to the next either
  the page is the same and \<open>y\<close> has not decreased, or the page is the next one and \<open>y\<close>
  is the top margin. The page check is the only step that opens a page: it leaves the
  cursor unchanged or closes the current page and sets \<open>y\<close> to the top margin. The table
  of contents and every file section keep the pages closed before them as they are and
  only add drawing operations at the end of the document.
\<close>

theorem cursor_monotone:
  assumes "renderRepo env data options = Some st"
    and "0 < fontSize options" and "0 < lineSpacing options"
  shows "hd (ylog st) = (0, MARGIN) \<and> last (ylog st) = (pageIndex st, ypos st)
       \<and> successively cursorStep (ylog st)
       \<and> (\<forall>h s s'. checkNewPage env options h s = Some s' \<longrightarrow>
            s' = s \<or> (pageIndex s' = Suc (pageIndex s) \<and> ypos s' = MARGIN
                      \<and> closedPages (doc s') = closedPages (doc s) @ [currentPage (doc s)]))
       \<and> (\<forall>s s'. renderToc env options data s = Some s' \<longrightarrow> pagesKept s s')
       \<and> (\<forall>file s s'. renderFile env options file s = Some s' \<longrightarrow> pagesKept s s')"
proof -
  from LINE_HEIGHT_pos [OF assms(2,3)] have "0 \<le> LINE_HEIGHT options" by simp
  from renderRepo_logOk [OF assms(1) this]
  have l: "hd (ylog st) = (0, MARGIN) \<and> last (ylog st) = (pageIndex st, ypos st)
       \<and> successively cursorStep (ylog st)"
    by (simp add: logOk_def)
  have "s' = s \<or> (pageIndex s' = Suc (pageIndex s) \<and> ypos s' = MARGIN
                      \<and> closedPages (doc s') = closedPages (doc s) @ [currentPage (doc s)])"
    if "checkNewPage env options h s = Some s'" for h s s'
    using checkNewPage_cases [OF that] by (auto simp: pageIndex_def split: if_splits)
  moreover have "pagesKept s s'" if "renderToc env options data s = Some s'" for s s'
    by (rule renderToc_pagesKept [OF that]) simp
  moreover have "pagesKept s s'" if "renderFile env options hf s = Some s'" for hf s s'
    by (rule renderFile_pagesKept [OF that]) simp
  ultimately show ?thesis using l by blast
qed

theorem cursor_monotone_witness:
  "\<exists>st. renderRepo exEnv exLongData exBigOptions = Some st
     \<and> 0 < fontSize exBigOptions \<and> 0 < lineSpacing exBigOptions
     \<and> ylog st = [(0, 15), (0, 37), (0, 45), (0, 205 / 2), (0, 225 / 2), (0, 245 / 2),
                  (0, 180), (0, 475 / 2), (1, 15), (1, 145 / 2)]
     \<and> (pageIndex st, ypos st) = (1, 145 / 2)
     \<and> successively cursorStep (ylog st)
     \<and> (\<exists>s'. renderFile exEnv exBigOptions (exFile ''x.ts'') (exCursor 15) = Some s'
           \<and> pagesKept (exCursor 15) s')"
proof -
  have e: "map_option ylog (renderRepo exEnv exLongData exBigOptions) =
      Some [(0, 15), (0, 37), (0, 45), (0, 205 / 2), (0, 225 / 2), (0, 245 / 2),
            (0, 180), (0, 475 / 2), (1, 15), (1, 145 / 2)]"
    by (simp add: render_defs ex_defs ex_defs2 Let_def)
  then obtain st where a: "renderRepo exEnv exLongData exBigOptions = Some st"
    and y: "ylog st = [(0, 15), (0, 37), (0, 45), (0, 205 / 2), (0, 225 / 2), (0, 245 / 2),
                  (0, 180), (0, 475 / 2), (1, 15), (1, 145 / 2)]"
    by auto
  have h: "0 < fontSize exBigOptions" "0 < lineSpacing exBigOptions"
    by (simp_all add: exBigOptions_def)
  from cursor_monotone [OF a h] have l: "last (ylog st) = (pageIndex st, ypos st)"
    and s: "successively cursorStep (ylog st)"
    by blast+
  have "(pageIndex st, ypos st) = last (ylog st)" using l by simp
  also have "\<dots> = (1, 145 / 2)" unfolding y by simp
  finally have p: "(pageIndex st, ypos st) = (1, 145 / 2)" .
  obtain s' where f: "renderFile exEnv exBigOptions (exFile ''x.ts'') (exCursor 15) = Some s'"
    by (simp add: render_defs ex_defs ex_defs2 exFile_def Let_def)
  from cursor_monotone [OF a h] f have "pagesKept (exCursor 15) s'" by blast
  with a h y s p f show ?thesis by blast
qed

section \<open>The renderer returns on every input\<close>



lemmas sort_defs = sortedHighlightedFiles_def arraySort_def exFile_def exToc_def exJoinData_def

section \<open>The order of the file sections\<close>

text \<open>
  C4, as the code has it. The file sections are drawn in the order of \<open>data.files\<close>,
  which \<open>formatRepoForPdf\<close> has sorted, stably, on the index of the first occurrence of
  each path in the table of contents, \<open>-1\<close> for a path that does not occur. So the files
  whose path is absent from the table of contents come before all files whose path is
  present, in their order of arrival, followed by the present files sorted among
  themselves; files with the same index keep their order of arrival. When the table of
  contents has no duplicate entry and the paths of the files are a permutation of it,
  the order of the sections is the order of the table of contents.
\<close>

theorem toc_join_order:
  "sortedHighlightedFiles toc hf =
     filter (\<lambda>f. path f \<notin> set toc) hf
       @ sortedHighlightedFiles toc (filter (\<lambda>f. path f \<in> set toc) hf)
   \<and> sorted (map (\<lambda>f. indexOf toc (path f)) (sortedHighlightedFiles toc hf))
   \<and> (\<forall>k. filter (\<lambda>f. indexOf toc (path f) = k) (sortedHighlightedFiles toc hf)
          = filter (\<lambda>f. indexOf toc (path f) = k) hf)
   \<and> (distinct toc \<and> mset (map path hf) = mset toc \<longrightarrow>
        map path (sortedHighlightedFiles toc hf) = toc)
   \<and> (renderRepo env \<lparr>title = t, tableOfContents = toc, files = sortedHighlightedFiles toc hf\<rparr> options
         = Some st \<longrightarrow>
        texts (doc st) =
          titleTexts env options \<lparr>title = t, tableOfContents = toc, files = sortedHighlightedFiles toc hf\<rparr>
          @ tocTexts env options \<lparr>title = t, tableOfContents = toc, files = sortedHighlightedFiles toc hf\<rparr>
          @ concat (map (fileTexts env options) (sortedHighlightedFiles toc hf)))"
proof -
  have k: "(\<lambda>f. indexOf toc (path f)) = tocIndex toc" by (simp add: tocIndex_def fun_eq_iff)
  have "sorted (map (\<lambda>f. indexOf toc (path f)) (sortedHighlightedFiles toc hf))"
    unfolding k sortedHighlightedFiles_sort_key by simp
  moreover have "filter (\<lambda>f. indexOf toc (path f) = j) (sortedHighlightedFiles toc hf)
          = filter (\<lambda>f. indexOf toc (path f) = j) hf" for j
    using sort_key_stable [of "tocIndex toc" j hf]
    by (simp add: sortedHighlightedFiles_sort_key tocIndex_def)
  moreover have "texts (doc st) =
          titleTexts env options \<lparr>title = t, tableOfContents = toc, files = sortedHighlightedFiles toc hf\<rparr>
          @ tocTexts env options \<lparr>title = t, tableOfContents = toc, files = sortedHighlightedFiles toc hf\<rparr>
          @ concat (map (fileTexts env options) (sortedHighlightedFiles toc hf))"
    if "renderRepo env \<lparr>title = t, tableOfContents = toc, files = sortedHighlightedFiles toc hf\<rparr> options
         = Some st"
    using renderRepo_texts [OF that] by simp
  ultimately show ?thesis
    using sorted_files_absent_first [of toc hf] sorted_files_permutation [of toc hf] by blast
qed

theorem toc_join_order_witness:
  "sortedHighlightedFiles exToc [exFile ''a.ts'', exFile ''x.ts'', exFile ''b.ts'']
     = [exFile ''x.ts''] @ sortedHighlightedFiles exToc [exFile ''a.ts'', exFile ''b.ts'']
   \<and> distinct exToc \<and> mset (map path [exFile ''a.ts'', exFile ''b.ts'']) = mset exToc
   \<and> map path (sortedHighlightedFiles exToc [exFile ''a.ts'', exFile ''b.ts'']) = [''b.ts'', ''a.ts'']
   \<and> filter (\<lambda>f. indexOf exToc (path f) = - 1)
        (sortedHighlightedFiles exToc [exFile ''y.ts'', exFile ''a.ts'', exFile ''x.ts''])
       = [exFile ''y.ts'', exFile ''x.ts'']
   \<and> (\<exists>st. renderRepo exEnv (exJoinData [exFile ''a.ts'', exFile ''b.ts'']) exOptions = Some st
        \<and> texts (doc st) = [Lines [''Demo''], Str ''Table of Contents'',
             Lines [''b.ts''], Lines [''a.ts''],
             Lines [''File: b.ts (typescript)''], Lines [''File: a.ts (typescript)'']])"
proof -
  let ?ab = "[exFile ''a.ts'', exFile ''b.ts'']"
  let ?d = "exJoinData ?ab"
  have h: "distinct exToc \<and> mset (map path ?ab) = mset exToc"
    by (simp add: exToc_def exFile_def)
  have v: "filter (\<lambda>f. path f \<notin> set exToc) [exFile ''a.ts'', exFile ''x.ts'', exFile ''b.ts'']
             = [exFile ''x.ts'']"
    "filter (\<lambda>f. path f \<in> set exToc) [exFile ''a.ts'', exFile ''x.ts'', exFile ''b.ts'']
             = ?ab"
    "filter (\<lambda>f. indexOf exToc (path f) = - 1) [exFile ''y.ts'', exFile ''a.ts'', exFile ''x.ts'']
       = [exFile ''y.ts'', exFile ''x.ts'']"
    by (simp_all add: exToc_def exFile_def)
  have so: "sortedHighlightedFiles exToc ?ab = [exFile ''b.ts'', exFile ''a.ts'']"
    by (simp add: sortedHighlightedFiles_def arraySort_def exFile_def exToc_def)
  have d: "?d = \<lparr>title = ''Demo'', tableOfContents = [''b.ts'', ''a.ts''],
     files = [\<lparr>path = ''b.ts'', language = ''typescript'', lines = []\<rparr>,
              \<lparr>path = ''a.ts'', language = ''typescript'', lines = []\<rparr>]\<rparr>"
    unfolding exJoinData_def so by (simp add: exFile_def exToc_def)
  obtain st where r: "renderRepo exEnv ?d exOptions = Some st"
    unfolding d by (simp add: render_defs ex_defs Let_def)
  have w: "titleTexts exEnv exOptions ?d @ tocTexts exEnv exOptions ?d
      @ concat (map (fileTexts exEnv exOptions) (sortedHighlightedFiles exToc ?ab))
      = [Lines [''Demo''], Str ''Table of Contents'', Lines [''b.ts''], Lines [''a.ts''],
         Lines [''File: b.ts (typescript)''], Lines [''File: a.ts (typescript)'']]"
    unfolding d so
    by (simp add: titleTexts_def tocTexts_def fileTexts_def lineTexts_def separatorText_def
        exFile_def exEnv_def exOptions_def contentWidth_def)
  note A = toc_join_order [of exToc "[exFile ''a.ts'', exFile ''x.ts'', exFile ''b.ts'']"
      exEnv "''Demo''" exOptions st]
  note B = toc_join_order [of exToc ?ab exEnv "''Demo''" exOptions st, folded exJoinData_def]
  note C = toc_join_order [of exToc "[exFile ''y.ts'', exFile ''a.ts'', exFile ''x.ts'']"
      exEnv "''Demo''" exOptions st]
  from A have c1: "sortedHighlightedFiles exToc [exFile ''a.ts'', exFile ''x.ts'', exFile ''b.ts'']
     = [exFile ''x.ts''] @ sortedHighlightedFiles exToc ?ab"
    unfolding v by (rule conjunct1)
  from B h have "map path (sortedHighlightedFiles exToc ?ab) = exToc" by blast
  then have c2: "map path (sortedHighlightedFiles exToc ?ab) = [''b.ts'', ''a.ts'']"
    by (simp add: exToc_def)
  from C have "filter (\<lambda>f. indexOf exToc (path f) = - 1)
        (sortedHighlightedFiles exToc [exFile ''y.ts'', exFile ''a.ts'', exFile ''x.ts''])
       = filter (\<lambda>f. indexOf exToc (path f) = - 1) [exFile ''y.ts'', exFile ''a.ts'', exFile ''x.ts'']"
    by blast
  then have c3: "filter (\<lambda>f. indexOf exToc (path f) = - 1)
        (sortedHighlightedFiles exToc [exFile ''y.ts'', exFile ''a.ts'', exFile ''x.ts''])
       = [exFile ''y.ts'', exFile ''x.ts'']"
    unfolding v .
  from B r have "texts (doc st) = titleTexts exEnv exOptions ?d @ tocTexts exEnv exOptions ?d
      @ concat (map (fileTexts exEnv exOptions) (sortedHighlightedFiles exToc ?ab))"
    by blast
  then have c4: "texts (doc st) = [Lines [''Demo''], Str ''Table of Contents'',
             Lines [''b.ts''], Lines [''a.ts''],
             Lines [''File: b.ts (typescript)''], Lines [''File: a.ts (typescript)'']]"
    unfolding w .
  from c1 h c2 c3 r c4 show ?thesis by blast
qed

theorem toc_join_order_counterexample:
  "''x.ts'' \<notin> set [''b.ts'', ''a.ts'']
   \<and> map path (sortedHighlightedFiles [''b.ts'', ''a.ts'']
        [exFile ''a.ts'', exFile ''x.ts'', exFile ''b.ts'']) = [''x.ts'', ''b.ts'', ''a.ts'']
   \<and> mset (map path [exFile ''a.ts'', exFile ''b.ts'', exFile ''a.ts''])
        = mset [''a.ts'', ''b.ts'', ''a.ts'']
   \<and> map path (sortedHighlightedFiles [''a.ts'', ''b.ts'', ''a.ts'']
        [exFile ''a.ts'', exFile ''b.ts'', exFile ''a.ts'']) = [''a.ts'', ''a.ts'', ''b.ts'']"
  by (simp add: sortedHighlightedFiles_def arraySort_def exFile_def)

end
